theory Spec2Isabelle
  imports Main "HOL-Library.Word"
begin

section \<open>The document tree of qjson.hpp\<close>

text \<open>
  \<^verbatim>\<open>enum struct JsonType { STRING, OBJECT, ARRAY, UNINIT }\<close>.
\<close>

datatype JsonType = STRING | OBJECT | ARRAY | UNINIT

text \<open>
  Every node lives behind a \<^verbatim>\<open>std::shared_ptr\<close>. The free store is a list of nodes,
  an address is an index into it, and the \<^verbatim>\<open>ptr_\<close> of an \<^verbatim>\<open>ov_shared_ptr<JsonData>\<close> is an
  address or \<^verbatim>\<open>nullptr\<close> (\<open>None\<close>). Nodes are never freed while the \<^verbatim>\<open>Json\<close> object
  lives, so the store only grows.
\<close>

type_synonym addr = nat
type_synonym handle = "addr option"

text \<open>
  \<^verbatim>\<open>class JsonData\<close>. The two containers are themselves \<^verbatim>\<open>ov_shared_ptr\<close>s that start
  as \<^verbatim>\<open>nullptr\<close> (\<open>None\<close>) and are allocated at the first insertion. A
  \<^verbatim>\<open>std::unordered_map\<close> is a finite map, a \<^verbatim>\<open>std::vector\<close> a list.
\<close>

record JsonData =
  key_' :: string
  type_' :: JsonType
  string_data_' :: string
  object_data_' :: "(string \<rightharpoonup> handle) option"
  array_data_' :: "handle list option"

definition new_JsonData :: JsonData where
  "new_JsonData =
     \<lparr>key_' = [], type_' = UNINIT, string_data_' = [], object_data_' = None, array_data_' = None\<rparr>"

text \<open>
  Every failure of the source is a \<^verbatim>\<open>throw std::runtime_error(message)\<close>; one constructor
  per kind of message, named as the specification names them:
  \<^item> \<open>NullHandle\<close>: "Can't ... on null pointer", "Can not convert null pointer to string";
  \<^item> \<open>NotAnObject\<close>: "Can't access key on non-object", "Can't delete key on non-object";
  \<^item> \<open>NotAnArray\<close>: "Can't access index on non-array", "Can't delete index on non-array";
  \<^item> \<open>NotAScalar\<close>: "Can not convert non-string type to string";
  \<^item> \<open>KeyNotFound k\<close>: "Key k not found";
  \<^item> \<open>IndexOutOfRange i\<close>: "Index i out of bounds";
  \<^item> \<open>InvalidNumberLiteral t\<close>: "Invalid number: t";
  \<^item> \<open>InvalidBooleanLiteral t\<close>: "Invalid boolean: t";
  \<^item> \<open>MissingKey\<close>: "No key found for value";
  \<^item> \<open>InvalidContainer\<close>: "Can't append value to non-object or non-array", thrown when
    the current node is neither;
  \<^item> \<open>UnbalancedBrackets\<close>: "Closing non existing bracket", and the same message as
    \<open>InvalidContainer\<close> thrown when \<^verbatim>\<open>working_on_\<close> is empty at a closing bracket;
  \<^item> \<open>BracketMismatch c b\<close>: "Bracket type mismatch c is closing b";
  \<^item> \<open>UnclosedBracket b\<close>: "Bracket not closed: b".

  \<open>StodOutOfRange\<close> is the \<^verbatim>\<open>std::out_of_range\<close> that \<^verbatim>\<open>std::stod\<close> throws and
  \<^verbatim>\<open>isValidNumber\<close> does not catch: it leaves \<^verbatim>\<open>processJson\<close> and the constructor as it is.

  \<open>UndefinedBehaviour\<close> is no exception: it stands for the places where the source
  dereferences a null pointer (\<^verbatim>\<open>operator->\<close> of an \<^verbatim>\<open>ov_shared_ptr\<close> returns \<^verbatim>\<open>ptr_.get()\<close>
  unchecked) or indexes a \<^verbatim>\<open>std::string\<close> beyond its end, where C++ promises nothing.
\<close>

datatype error =
    NullHandle
  | NotAnObject
  | NotAnArray
  | NotAScalar
  | KeyNotFound string
  | IndexOutOfRange int
  | InvalidNumberLiteral string
  | InvalidBooleanLiteral string
  | MissingKey
  | InvalidContainer
  | UnbalancedBrackets
  | BracketMismatch char char
  | UnclosedBracket char
  | StodOutOfRange
  | UndefinedBehaviour

subsection \<open>The handle's operations (\<^verbatim>\<open>ov_shared_ptr<JsonData>\<close>)\<close>

text \<open>
  \<^verbatim>\<open>unordered_map::insert\<close> leaves the map as it is when the key is present.
\<close>

definition map_insert :: "'k \<Rightarrow> 'v \<Rightarrow> ('k \<rightharpoonup> 'v) \<Rightarrow> ('k \<rightharpoonup> 'v)" where
  "map_insert k v m = (if m k = None then m(k \<mapsto> v) else m)"

text \<open>
  \<^verbatim>\<open>h[key]\<close>, lines 73-87. The container is reached through \<^verbatim>\<open>ptr_->object_data_->find\<close>
  with no test that \<^verbatim>\<open>object_data_\<close> is allocated.
\<close>

definition subscript_key :: "JsonData list \<Rightarrow> handle \<Rightarrow> string \<Rightarrow> error + handle" where
  "subscript_key st h key =
     (case h of
        None \<Rightarrow> Inl NullHandle
      | Some a \<Rightarrow>
          if type_' (st ! a) \<noteq> OBJECT then Inl NotAnObject
          else (case object_data_' (st ! a) of
                  None \<Rightarrow> Inl UndefinedBehaviour
                | Some m \<Rightarrow>
                    (case m key of
                       None \<Rightarrow> Inl (KeyNotFound key)
                     | Some child \<Rightarrow> Inr child)))"

text \<open>
  \<^verbatim>\<open>h[index]\<close>, lines 89-103. The index is a C++ \<^verbatim>\<open>int\<close>, a signed 32-bit word. In
  \<^verbatim>\<open>index < 0 || index >= ptr_->array_data_->size()\<close> a negative index is out of bounds
  before the vector is looked at; only an index that is not negative reaches
  \<^verbatim>\<open>array_data_->size()\<close>, with no test that \<^verbatim>\<open>array_data_\<close> is allocated, and is compared
  there after a conversion to \<^verbatim>\<open>size_t\<close> that keeps its value.
\<close>

definition subscript_index :: "JsonData list \<Rightarrow> handle \<Rightarrow> 32 word \<Rightarrow> error + handle" where
  "subscript_index st h index =
     (case h of
        None \<Rightarrow> Inl NullHandle
      | Some a \<Rightarrow>
          if type_' (st ! a) \<noteq> ARRAY then Inl NotAnArray
          else if sint index < 0 then Inl (IndexOutOfRange (sint index))
          else (case array_data_' (st ! a) of
                  None \<Rightarrow> Inl UndefinedBehaviour
                | Some xs \<Rightarrow>
                    if int (length xs) \<le> sint index
                    then Inl (IndexOutOfRange (sint index))
                    else Inr (xs ! nat (sint index))))"

text \<open>\<^verbatim>\<open>h.del(key)\<close>, lines 37-51; the store is returned updated.\<close>

definition del_key :: "JsonData list \<Rightarrow> handle \<Rightarrow> string \<Rightarrow> error + JsonData list" where
  "del_key st h key =
     (case h of
        None \<Rightarrow> Inl NullHandle
      | Some a \<Rightarrow>
          if type_' (st ! a) \<noteq> OBJECT then Inl NotAnObject
          else (case object_data_' (st ! a) of
                  None \<Rightarrow> Inl UndefinedBehaviour
                | Some m \<Rightarrow>
                    (case m key of
                       None \<Rightarrow> Inl (KeyNotFound key)
                     | Some child \<Rightarrow>
                         Inr (st[a := (st ! a)\<lparr>object_data_' := Some (m(key := None))\<rparr>]))))"

text \<open>
  \<^verbatim>\<open>h.del(index)\<close>, lines 53-71, with the same test of the index: \<^verbatim>\<open>clear()\<close> when the
  vector has one element, \<^verbatim>\<open>erase(begin() + index)\<close> otherwise.
\<close>

definition del_index :: "JsonData list \<Rightarrow> handle \<Rightarrow> 32 word \<Rightarrow> error + JsonData list" where
  "del_index st h index =
     (case h of
        None \<Rightarrow> Inl NullHandle
      | Some a \<Rightarrow>
          if type_' (st ! a) \<noteq> ARRAY then Inl NotAnArray
          else if sint index < 0 then Inl (IndexOutOfRange (sint index))
          else (case array_data_' (st ! a) of
                  None \<Rightarrow> Inl UndefinedBehaviour
                | Some xs \<Rightarrow>
                    if int (length xs) \<le> sint index
                    then Inl (IndexOutOfRange (sint index))
                    else if length xs = 1
                    then Inr (st[a := (st ! a)\<lparr>array_data_' := Some []\<rparr>])
                    else Inr (st[a := (st ! a)\<lparr>array_data_' :=
                           Some (take (nat (sint index)) xs @ drop (Suc (nat (sint index))) xs)\<rparr>])))"

text \<open>\<^verbatim>\<open>operator==\<close>, lines 109-111: the two \<^verbatim>\<open>ptr_\<close> are compared.\<close>

definition handle_eq :: "handle \<Rightarrow> handle \<Rightarrow> bool" where
  "handle_eq h other = (h = other)"

text \<open>\<^verbatim>\<open>explicit operator std::string()\<close>, lines 121-131.\<close>

definition to_string :: "JsonData list \<Rightarrow> handle \<Rightarrow> error + string" where
  "to_string st h =
     (case h of
        None \<Rightarrow> Inl NullHandle
      | Some a \<Rightarrow>
          if type_' (st ! a) \<noteq> STRING then Inl NotAScalar
          else Inr (string_data_' (st ! a)))"

section \<open>The parser (\<^verbatim>\<open>class Json\<close>)\<close>

text \<open>
  The members of \<^verbatim>\<open>Json\<close> that parsing reads and writes, and the free store \<open>heap\<close>
  where the nodes are. The three \<^verbatim>\<open>std::stack\<close>s are lists with the top at the head.
  The stream \<^verbatim>\<open>file_\<close> and the chunk size \<^verbatim>\<open>buffer_size_\<close> are kept apart, below.
\<close>

record Json =
  last_bracket_' :: char
  last_symbol_' :: char
  brackets_' :: "char list"
  keys_' :: "string list"
  working_on_' :: "handle list"
  currently_working_on_' :: handle
  text_' :: string
  quotes_open :: bool
  processing_key_' :: bool
  processing_bool_' :: bool
  processing_number_' :: bool
  json_data_' :: JsonData
  heap :: "JsonData list"

text \<open>
  The member initialisers: \<^verbatim>\<open>currently_working_on_\<close> is a fresh node of type
  \<^verbatim>\<open>ARRAY\<close>, at address 0 of the store.
\<close>

definition Json_init :: Json where
  "Json_init =
     \<lparr>last_bracket_' = CHR 0x00, last_symbol_' = CHR 0x00, brackets_' = [], keys_' = [],
      working_on_' = [], currently_working_on_' = Some 0, text_' = [], quotes_open = False,
      processing_key_' = True, processing_bool_' = False, processing_number_' = False,
      json_data_' = new_JsonData, heap = [new_JsonData\<lparr>type_' := ARRAY\<rparr>]\<rparr>"

subsection \<open>Character classes\<close>

definition isClosingBracket :: "char \<Rightarrow> bool" where
  "isClosingBracket c = (c = CHR ''}'' \<or> c = CHR '']'')"

definition isOpeningBracket :: "char \<Rightarrow> bool" where
  "isOpeningBracket c = (c = CHR ''{'' \<or> c = CHR ''['')"

definition sameBracketType :: "char \<Rightarrow> char \<Rightarrow> bool" where
  "sameBracketType c1 c2 =
     (let c1_square = (c1 = CHR ''['' \<or> c1 = CHR '']'');
          c2_square = (c2 = CHR ''['' \<or> c2 = CHR '']'')
      in c1_square = c2_square)"

definition isdigit :: "char \<Rightarrow> bool" where
  "isdigit c = (of_char c \<ge> (48::nat) \<and> of_char c \<le> (57::nat))"

definition isNumberPart :: "char \<Rightarrow> bool" where
  "isNumberPart c = (isdigit c \<or> c = CHR ''.'' \<or> c = CHR ''-'' \<or> c = CHR ''e'')"

definition isBoolPart :: "char \<Rightarrow> bool" where
  "isBoolPart c =
     (c = CHR ''t'' \<or> c = CHR ''r'' \<or> c = CHR ''u'' \<or> c = CHR ''e'' \<or>
      c = CHR ''f'' \<or> c = CHR ''a'' \<or> c = CHR ''l'' \<or> c = CHR ''s'')"

definition isValidBool :: "string \<Rightarrow> bool" where
  "isValidBool boolean = (boolean = ''true'' \<or> boolean = ''false'')"

text \<open>
  \<^verbatim>\<open>isValidNumber\<close> calls \<^verbatim>\<open>std::stod\<close> and returns false when that throws
  \<^verbatim>\<open>std::invalid_argument\<close>, true when it returns. \<^verbatim>\<open>std::stod\<close> is the C library's
  \<^verbatim>\<open>strtod\<close>: it skips leading white space, reads an optional sign, and converts the longest
  prefix that is a hexadecimal floating constant (\<^verbatim>\<open>0x\<close>, hexadecimal digits with an optional
  point, an optional binary exponent after \<^verbatim>\<open>p\<close>), a decimal floating constant (digits with
  an optional point, an optional exponent after \<^verbatim>\<open>e\<close>), or \<^verbatim>\<open>inf\<close>, \<^verbatim>\<open>infinity\<close> or \<^verbatim>\<open>nan\<close>
  (letters of either case); what follows the prefix is ignored. With no such prefix it
  throws \<^verbatim>\<open>std::invalid_argument\<close>. When the value of the prefix is outside the range of
  \<^verbatim>\<open>double\<close> it throws \<^verbatim>\<open>std::out_of_range\<close>, which \<^verbatim>\<open>isValidNumber\<close> does not catch.

  \<open>strtod\<close> gives the value of the prefix exactly, as a mantissa, a base and an exponent
  (\<open>Finite m b k\<close> is \<open>m * b ^ k\<close>, up to the sign). \<^verbatim>\<open>std::stod\<close> throws
  \<^verbatim>\<open>std::out_of_range\<close> when the C library reports a range error, and \<open>out_of_range\<close> is
  when the GNU C library does so for an IEEE double on x86-64, rounding to nearest. On
  overflow: a magnitude of at least \<open>2 ^ 1024 - 2 ^ 970\<close> rounds beyond the largest double.
  On underflow: the magnitude is not zero, rounds (to 53 bits) to less than the smallest
  normal double \<open>2 ^ - 1022\<close>, which is to be below \<open>2 ^ - 1022 - 2 ^ - 1076\<close>, and is not
  itself a double, a multiple of \<open>2 ^ - 1074\<close>.
\<close>

definition isspace :: "char \<Rightarrow> bool" where
  "isspace c = (c = CHR '' '' \<or> (of_char c \<ge> (9::nat) \<and> of_char c \<le> (13::nat)))"

definition tolower :: "char \<Rightarrow> char" where
  "tolower c = (if of_char c \<ge> (65::nat) \<and> of_char c \<le> (90::nat)
                then char_of (of_char c + (32::nat)) else c)"

definition isxdigit :: "char \<Rightarrow> bool" where
  "isxdigit c =
     (isdigit c \<or> (of_char c \<ge> (97::nat) \<and> of_char c \<le> (102::nat))
      \<or> (of_char c \<ge> (65::nat) \<and> of_char c \<le> (70::nat)))"

definition digit_value :: "char \<Rightarrow> nat" where
  "digit_value c =
     (if of_char c \<ge> (97::nat) then of_char c - 87
      else if of_char c \<ge> (65::nat) then of_char c - 55
      else of_char c - 48)"

definition digits_value :: "nat \<Rightarrow> string \<Rightarrow> nat" where
  "digits_value base ds = foldl (\<lambda>acc c. acc * base + digit_value c) 0 ds"

text \<open>
  The digits before the point, the digits after it, and what follows them. A point with
  no digit after it still belongs to the constant when digits stand before it.
\<close>

definition mantissa :: "(char \<Rightarrow> bool) \<Rightarrow> string \<Rightarrow> string \<times> string \<times> string" where
  "mantissa is_digit u =
     (let whole = takeWhile is_digit u; r1 = dropWhile is_digit u
      in (case r1 of
            [] \<Rightarrow> (whole, [], [])
          | c # r2 \<Rightarrow>
              if c = CHR ''.'' then (whole, takeWhile is_digit r2, dropWhile is_digit r2)
              else (whole, [], r1)))"

text \<open>
  The exponent after the mantissa: the marker (\<^verbatim>\<open>e\<close> or \<^verbatim>\<open>p\<close>, of either case), an optional
  sign and at least one decimal digit; without a digit there is no exponent.
\<close>

definition exponent_part :: "char \<Rightarrow> string \<Rightarrow> int" where
  "exponent_part marker r =
     (case r of
        [] \<Rightarrow> 0
      | c # r1 \<Rightarrow>
          if tolower c \<noteq> marker then 0
          else (let negative = (case r1 of [] \<Rightarrow> False | d # _ \<Rightarrow> d = CHR ''-'');
                    signed = (case r1 of
                                [] \<Rightarrow> False
                              | d # _ \<Rightarrow> d = CHR ''-'' \<or> d = CHR ''+'');
                    ds = takeWhile isdigit (if signed then tl r1 else r1)
                in if ds = [] then 0
                   else if negative then - int (digits_value 10 ds)
                   else int (digits_value 10 ds)))"

datatype stod_value = NoConversion | Special | Finite nat nat int

definition strtod :: "string \<Rightarrow> stod_value" where
  "strtod str =
     (let s1 = dropWhile isspace str;
          u = (case s1 of
                 [] \<Rightarrow> []
               | c # rest \<Rightarrow> if c = CHR ''+'' \<or> c = CHR ''-'' then rest else s1)
      in (case mantissa isxdigit (drop 2 u) of
            (hw, hf, hr) \<Rightarrow>
              (case mantissa isdigit u of
                 (dw, df, dr) \<Rightarrow>
                   if map tolower (take 2 u) = ''0x'' \<and> (hw \<noteq> [] \<or> hf \<noteq> [])
                   then Finite (digits_value 16 (hw @ hf)) 2
                          (exponent_part CHR ''p'' hr - 4 * int (length hf))
                   else if dw \<noteq> [] \<or> df \<noteq> []
                   then Finite (digits_value 10 (dw @ df)) 10
                          (exponent_part CHR ''e'' dr - int (length df))
                   else if map tolower (take 3 u) = ''inf'' \<or> map tolower (take 3 u) = ''nan''
                   then Special
                   else NoConversion)))"

definition out_of_range :: "nat \<Rightarrow> nat \<Rightarrow> int \<Rightarrow> bool" where
  "out_of_range m b k =
     (m \<noteq> 0 \<and>
      (if 0 \<le> k then 2 ^ 1024 - 2 ^ 970 \<le> m * b ^ nat k
       else (2 ^ 1024 - 2 ^ 970) * b ^ nat (- k) \<le> m
            \<or> (m * 2 ^ 1076 < (2 ^ 54 - 1) * b ^ nat (- k)
                \<and> (m * 2 ^ 1074) mod b ^ nat (- k) \<noteq> 0)))"

text \<open>
  \<^verbatim>\<open>isValidNumber\<close>: \<open>Inr\<close> the value it returns, \<open>Inl\<close> the exception that passes through it.
\<close>

definition isValidNumber :: "string \<Rightarrow> error + bool" where
  "isValidNumber number =
     (case strtod number of
        NoConversion \<Rightarrow> Inr False
      | Special \<Rightarrow> Inr True
      | Finite m b k \<Rightarrow> if out_of_range m b k then Inl StodOutOfRange else Inr True)"

subsection \<open>\<^verbatim>\<open>processJson\<close>, one character outside quotes\<close>

text \<open>
  Lines 341-388: a finished scalar is appended to the current node. \<open>append_text\<close> is
  the body of that \<^verbatim>\<open>if\<close>, after the two validity tests: the node the text goes into is
  made by \<^verbatim>\<open>ov_shared_ptr<JsonData>()\<close> (a new address at the end of the store) and gets
  type \<^verbatim>\<open>STRING\<close> and the text.
\<close>

definition append_text :: "Json \<Rightarrow> error + Json" where
  "append_text s =
     (case currently_working_on_' s of
        None \<Rightarrow> Inl UndefinedBehaviour
      | Some cur \<Rightarrow>
          let node = heap s ! cur;
              text_data = length (heap s);
              new_node = new_JsonData\<lparr>type_' := STRING, string_data_' := text_' s\<rparr>
          in if type_' node = OBJECT then
               (case keys_' s of
                  [] \<Rightarrow> Inl MissingKey
                | key # ks \<Rightarrow>
                    let m = (case object_data_' node of None \<Rightarrow> Map.empty | Some m \<Rightarrow> m)
                    in Inr (s\<lparr>keys_' := ks,
                              heap := (heap s)[cur := node\<lparr>object_data_' :=
                                         Some (map_insert key (Some text_data) m)\<rparr>] @ [new_node],
                              text_' := []\<rparr>))
             else if type_' node = ARRAY then
               (let xs = (case array_data_' node of None \<Rightarrow> [] | Some xs \<Rightarrow> xs)
                in Inr (s\<lparr>heap := (heap s)[cur := node\<lparr>array_data_' :=
                                     Some (xs @ [Some text_data])\<rparr>] @ [new_node],
                          text_' := []\<rparr>))
             else Inl InvalidContainer)"

text \<open>
  The test of lines 341-345 and the two validity tests of lines 346-350.
  \<^verbatim>\<open>isValidNumber\<close> is only called when the number flag is set.
\<close>

definition value_end :: "char \<Rightarrow> Json \<Rightarrow> error + Json" where
  "value_end c s =
     (if (c = CHR '','' \<and> \<not> isClosingBracket (last_symbol_' s))
         \<or> (isClosingBracket c \<and> text_' s \<noteq> [])
         \<or> ((c = CHR '','' \<or> c = CHR ''}'' \<or> c = CHR '']'')
             \<and> (processing_number_' s \<or> processing_bool_' s))
      then
        (case (if processing_number_' s then isValidNumber (text_' s) else Inr True) of
           Inl e \<Rightarrow> Inl e
         | Inr number_ok \<Rightarrow>
             if \<not> number_ok then Inl (InvalidNumberLiteral (text_' s))
             else if processing_bool_' s \<and> \<not> isValidBool (text_' s)
             then Inl (InvalidBooleanLiteral (text_' s))
             else append_text (s\<lparr>processing_number_' := False, processing_bool_' := False\<rparr>))
      else Inr s)"

text \<open>
  Lines 390-404: an opening bracket pushes the bracket and the current node, and makes a
  new node of type \<^verbatim>\<open>OBJECT\<close> or \<^verbatim>\<open>ARRAY\<close> the current one.
\<close>

definition open_bracket :: "char \<Rightarrow> Json \<Rightarrow> Json" where
  "open_bracket c s =
     s\<lparr>brackets_' := c # brackets_' s,
       last_bracket_' := c,
       working_on_' := (if currently_working_on_' s \<noteq> None
                       then currently_working_on_' s # working_on_' s else working_on_' s),
       currently_working_on_' := Some (length (heap s)),
       heap := heap s @ [new_JsonData\<lparr>type_' := (if c = CHR ''{'' then OBJECT else ARRAY)\<rparr>]\<rparr>"

text \<open>
  Lines 405-447: a closing bracket pops the bracket, makes the node on top of
  \<^verbatim>\<open>working_on_\<close> the current one and inserts the node just closed (\<^verbatim>\<open>temp\<close>) into it.
\<close>

definition close_bracket :: "char \<Rightarrow> Json \<Rightarrow> error + Json" where
  "close_bracket c s =
     (case brackets_' s of
        [] \<Rightarrow> Inl UnbalancedBrackets
      | b # bs \<Rightarrow>
          if \<not> sameBracketType c b then Inl (BracketMismatch c (last_bracket_' s))
          else (case working_on_' s of
                  [] \<Rightarrow> Inl UnbalancedBrackets
                | parent # ws \<Rightarrow>
                    (case parent of
                       None \<Rightarrow> Inl UndefinedBehaviour
                     | Some cur \<Rightarrow>
                         let temp = currently_working_on_' s;
                             node = heap s ! cur;
                             s1 = s\<lparr>brackets_' := bs, last_bracket_' := c,
                                    currently_working_on_' := parent, working_on_' := ws\<rparr>
                         in if type_' node = OBJECT then
                              (case keys_' s1 of
                                 [] \<Rightarrow> Inl MissingKey
                               | key # ks \<Rightarrow>
                                   let m = (case object_data_' node of
                                              None \<Rightarrow> Map.empty | Some m \<Rightarrow> m)
                                   in Inr (s1\<lparr>keys_' := ks,
                                              heap := (heap s1)[cur := node\<lparr>object_data_' :=
                                                        Some (map_insert key temp m)\<rparr>]\<rparr>))
                            else if type_' node = ARRAY then
                              (let xs = (case array_data_' node of None \<Rightarrow> [] | Some xs \<Rightarrow> xs)
                               in Inr (s1\<lparr>heap := (heap s1)[cur := node\<lparr>array_data_' :=
                                                    Some (xs @ [temp])\<rparr>]\<rparr>))
                            else Inl InvalidContainer)))"

definition processJson :: "char \<Rightarrow> Json \<Rightarrow> error + Json" where
  "processJson c s =
     (if c = CHR '' '' \<or> c = CHR 0x0A \<or> c = CHR 0x09 \<or> c = CHR 0x0D then Inr s
      else
        let s1 = (if c = CHR '':''
                  then s\<lparr>processing_key_' := False, keys_' := text_' s # keys_' s, text_' := []\<rparr>
                  else s);
            s2 = (if isNumberPart c \<and> \<not> processing_bool_' s1
                  then s1\<lparr>processing_number_' := True, text_' := text_' s1 @ [c]\<rparr>
                  else s1);
            s3 = (if isBoolPart c \<and> \<not> processing_number_' s2
                  then s2\<lparr>processing_bool_' := True, text_' := text_' s2 @ [c]\<rparr>
                  else s2)
        in (case value_end c s3 of
              Inl e \<Rightarrow> Inl e
            | Inr s4 \<Rightarrow>
                if isOpeningBracket c then Inr ((open_bracket c s4)\<lparr>last_symbol_' := c\<rparr>)
                else if isClosingBracket c then
                  (case close_bracket c s4 of
                     Inl e \<Rightarrow> Inl e
                   | Inr s5 \<Rightarrow> Inr (s5\<lparr>last_symbol_' := c\<rparr>))
                else Inr (s4\<lparr>last_symbol_' := c\<rparr>)))"

subsection \<open>\<^verbatim>\<open>parseBuffer\<close>, \<^verbatim>\<open>readBuffer\<close>, \<^verbatim>\<open>parseFile\<close>\<close>

text \<open>The body of the loop of \<^verbatim>\<open>parseBuffer\<close>, lines 300-314.\<close>

definition parseChar :: "char \<Rightarrow> Json \<Rightarrow> error + Json" where
  "parseChar c s =
     (if c = CHR 0x22 then
        (if quotes_open s then Inr (s\<lparr>quotes_open := False\<rparr>)
         else Inr (s\<lparr>text_' := [], quotes_open := True\<rparr>))
      else if quotes_open s then Inr (s\<lparr>text_' := text_' s @ [c]\<rparr>)
      else processJson c s)"

text \<open>
  The loop of \<^verbatim>\<open>parseBuffer\<close> runs the body over the characters \<^verbatim>\<open>buffer[i]\<close>, \<open>i\<close> from 0 up
  to \<^verbatim>\<open>gcount\<close>; an exception leaves the loop. \<open>parseBuffer\<close> is that loop over the
  characters the indexing yields; which they are is settled where the buffer is made, in
  the loop of \<^verbatim>\<open>parseFile\<close> below.
\<close>

fun parseBuffer :: "string \<Rightarrow> Json \<Rightarrow> error + Json" where
  "parseBuffer [] s = Inr s"
| "parseBuffer (c # cs) s =
     (case parseChar c s of Inl e \<Rightarrow> Inl e | Inr s' \<Rightarrow> parseBuffer cs s')"

text \<open>
  The stream \<^verbatim>\<open>file_\<close>: the characters not yet read, whether \<^verbatim>\<open>failbit\<close> is set (so that
  \<^verbatim>\<open>!file_\<close> holds) and the count of the last read. A file that cannot be opened has
  \<^verbatim>\<open>failbit\<close> set from the start. \<^verbatim>\<open>read(p, n)\<close> takes \<open>n\<close> characters, or all that is left
  and then sets \<^verbatim>\<open>eofbit\<close> and \<^verbatim>\<open>failbit\<close>.
\<close>

record ifstream =
  unread :: string
  failbit :: bool
  gcount :: nat

definition ifstream_open :: "string option \<Rightarrow> ifstream" where
  "ifstream_open file =
     (case file of
        None \<Rightarrow> \<lparr>unread = [], failbit = True, gcount = 0\<rparr>
      | Some contents \<Rightarrow> \<lparr>unread = contents, failbit = False, gcount = 0\<rparr>)"

definition ifstream_read :: "nat \<Rightarrow> ifstream \<Rightarrow> string \<times> ifstream" where
  "ifstream_read n f =
     (take n (unread f),
      \<lparr>unread = drop n (unread f), failbit = (length (unread f) < n),
       gcount = min n (length (unread f))\<rparr>)"

text \<open>
  \<^verbatim>\<open>readBuffer\<close>, lines 279-283: the flag it returns, the chunk now in
  \<^verbatim>\<open>raw_char_data_\<close>, and the stream.
\<close>

definition readBuffer :: "nat \<Rightarrow> ifstream \<Rightarrow> bool \<times> string \<times> ifstream" where
  "readBuffer buffer_size f =
     (if failbit f then (False, [], f)
      else (True, ifstream_read buffer_size f))"

text \<open>
  \<^verbatim>\<open>std::string buffer {raw_char_data_.get()}\<close>, line 287: the buffer is the C string in the
  raw array, its characters up to the first NUL. \<^verbatim>\<open>read\<close> stores the chunk and no
  terminator. Where the chunk holds a NUL the string ends there. Where it holds none the
  constructor reads on, through what older reads left in the array and the memory after
  it, to the first NUL it finds; the model takes it to find one, and leaves out what it
  passes on the way, which no index below \<^verbatim>\<open>gcount\<close> reaches.
\<close>

definition c_string :: "string \<Rightarrow> string" where
  "c_string raw = takeWhile (\<lambda>c. c \<noteq> CHR 0x00) raw"

text \<open>
  The loop of \<^verbatim>\<open>parseFile\<close>, lines 286-289, for a chunk size \<open>buffer_size\<close> (the member
  \<^verbatim>\<open>buffer_size_\<close>, 4096 in the source). With a chunk size of 0 no read ever fails and the
  loop does not end: the result is an option, \<open>None\<close> when the loop runs forever.

  \<^verbatim>\<open>parseBuffer\<close> indexes the buffer up to \<^verbatim>\<open>gcount\<close>, not up to its size. \<^verbatim>\<open>buffer[i]\<close> is a
  character of the string for \<open>i\<close> below its size and the NUL after it for \<open>i\<close> equal to
  its size; these are the characters \<open>parseBuffer\<close> gets. An index beyond that, reached
  when the chunk goes on after a NUL and no exception has left the loop before, is
  undefined.
\<close>

partial_function (option) parseFile_loop :: "nat \<Rightarrow> ifstream \<Rightarrow> Json \<Rightarrow> (error + Json) option"
  where
  "parseFile_loop buffer_size f s =
     (let r = readBuffer buffer_size f; buffer = c_string (fst (snd r)); f' = snd (snd r)
      in if \<not> fst r then Some (Inr s)
         else (case parseBuffer (take (gcount f') (buffer @ [CHR 0x00])) s of
                 Inl e \<Rightarrow> Some (Inl e)
               | Inr s' \<Rightarrow>
                   if Suc (length buffer) < gcount f' then Some (Inl UndefinedBehaviour)
                   else parseFile_loop buffer_size f' s'))"

text \<open>
  After the loop, lines 291-295: an open bracket is an error; otherwise \<^verbatim>\<open>json_data_\<close>
  becomes a copy of the node that element 0 of the current node's array points to. The
  vector is reached through \<^verbatim>\<open>array_data_->at(0)\<close> with no test that it is allocated;
  \<^verbatim>\<open>at\<close> on an allocated empty vector throws \<^verbatim>\<open>std::out_of_range\<close>.
\<close>

definition parseFile_end :: "Json \<Rightarrow> error + Json" where
  "parseFile_end s =
     (case brackets_' s of
        b # _ \<Rightarrow> Inl (UnclosedBracket b)
      | [] \<Rightarrow>
          (case currently_working_on_' s of
             None \<Rightarrow> Inl UndefinedBehaviour
           | Some cur \<Rightarrow>
               (case array_data_' (heap s ! cur) of
                  None \<Rightarrow> Inl UndefinedBehaviour
                | Some [] \<Rightarrow> Inl (IndexOutOfRange 0)
                | Some (None # _) \<Rightarrow> Inl UndefinedBehaviour
                | Some (Some root # _) \<Rightarrow> Inr (s\<lparr>json_data_' := heap s ! root\<rparr>))))"

definition parseFile :: "nat \<Rightarrow> ifstream \<Rightarrow> Json \<Rightarrow> (error + Json) option" where
  "parseFile buffer_size f s =
     (case parseFile_loop buffer_size f s of
        None \<Rightarrow> None
      | Some (Inl e) \<Rightarrow> Some (Inl e)
      | Some (Inr s') \<Rightarrow> Some (parseFile_end s'))"

text \<open>
  The constructor \<^verbatim>\<open>Json(filename)\<close>, for the contents of the file named (\<open>None\<close> when
  it cannot be opened). \<open>buffer_size_'\<close> is the chunk size of the source.
\<close>

definition buffer_size_' :: nat where
  "buffer_size_' = 4096"

definition Json_ctor :: "nat \<Rightarrow> string option \<Rightarrow> (error + Json) option" where
  "Json_ctor buffer_size file = parseFile buffer_size (ifstream_open file) Json_init"

text \<open>\<^verbatim>\<open>Json::operator[](int)\<close> and \<^verbatim>\<open>Json::operator[](const std::string&)\<close>, lines 200-222.\<close>

definition Json_subscript_index :: "Json \<Rightarrow> 32 word \<Rightarrow> error + handle" where
  "Json_subscript_index js index =
     (case array_data_' (json_data_' js) of
        None \<Rightarrow> Inl NotAnArray
      | Some xs \<Rightarrow>
          if sint index < 0 \<or> int (length xs) \<le> sint index
          then Inl (IndexOutOfRange (sint index))
          else Inr (xs ! nat (sint index)))"

definition Json_subscript_key :: "Json \<Rightarrow> string \<Rightarrow> error + handle" where
  "Json_subscript_key js key =
     (case object_data_' (json_data_' js) of
        None \<Rightarrow> Inl NotAnObject
      | Some m \<Rightarrow>
          (case m key of
             None \<Rightarrow> Inl (KeyNotFound key)
           | Some child \<Rightarrow> Inr child))"

section \<open>Predicates and documents of the properties\<close>



text \<open>Scenario F of the specification, and the same document up to its closing brace.\<close>

definition tru_doc :: string where
  \<open>tru_doc = ''{"a": tru}''\<close>

definition tru_prefix :: string where
  \<open>tru_prefix = ''{"a": tru''\<close>

text \<open>The start of an array whose second element is a lone minus sign.\<close>

definition minus_prefix :: string where
  \<open>minus_prefix = ''[1, -''\<close>

text \<open>
  The handles a node holds, in either container; the nodes reached from a root node by
  following such handles through the store; and the well-formedness that parsing keeps:
  no node of the store is \<^verbatim>\<open>UNINIT\<close>, and every handle held by a node, by
  \<^verbatim>\<open>currently_working_on_\<close> or by \<^verbatim>\<open>working_on_\<close> is an address of the store.
\<close>

definition children :: "JsonData \<Rightarrow> handle set" where
  "children n =
     (case object_data_' n of None \<Rightarrow> {} | Some m \<Rightarrow> ran m)
     \<union> (case array_data_' n of None \<Rightarrow> {} | Some xs \<Rightarrow> set xs)"

inductive_set reachable :: "JsonData list \<Rightarrow> JsonData \<Rightarrow> JsonData set"
  for st :: "JsonData list" and root :: JsonData
  where
    reachable_root: "root \<in> reachable st root"
  | reachable_child: "n \<in> reachable st root \<Longrightarrow> Some a \<in> children n \<Longrightarrow> st ! a \<in> reachable st root"

definition valid_handle :: "JsonData list \<Rightarrow> handle \<Rightarrow> bool" where
  "valid_handle st h = (case h of None \<Rightarrow> False | Some a \<Rightarrow> a < length st)"

definition wf_node :: "JsonData list \<Rightarrow> JsonData \<Rightarrow> bool" where
  "wf_node st n = (type_' n \<noteq> UNINIT \<and> (\<forall>h \<in> children n. valid_handle st h))"

definition wf_state :: "Json \<Rightarrow> bool" where
  "wf_state s =
     ((\<forall>n \<in> set (heap s). wf_node (heap s) n)
      \<and> valid_handle (heap s) (currently_working_on_' s)
      \<and> (\<forall>h \<in> set (working_on_' s). valid_handle (heap s) h))"

text \<open>Scenario B of the specification and the state its construction ends in.\<close>

definition scenario_b_doc :: string where
  \<open>scenario_b_doc = ''{"a": "x", "b": {"c": true}}''\<close>

definition scenario_b_tree :: Json where
  "scenario_b_tree = projr (the (Json_ctor buffer_size_' (Some scenario_b_doc)))"

text \<open>Scenario A of the specification, a one-element array, and the states their
  construction ends in.\<close>

definition scenario_a_doc :: string where
  \<open>scenario_a_doc = ''[1, 2, 3]''\<close>

definition scenario_a_tree :: Json where
  "scenario_a_tree = projr (the (Json_ctor buffer_size_' (Some scenario_a_doc)))"

definition sole_element_doc :: string where
  \<open>sole_element_doc = ''[7]''\<close>

definition sole_element_tree :: Json where
  "sole_element_tree = projr (the (Json_ctor buffer_size_' (Some sole_element_doc)))"

text \<open>An array of two equal scalars and the state its construction ends in.\<close>

definition twin_doc :: string where
  \<open>twin_doc = ''[1, 1]''\<close>

definition twin_tree :: Json where
  "twin_tree = projr (the (Json_ctor buffer_size_' (Some twin_doc)))"

text \<open>Documents with an empty object as a member and as the root, a trailing comma, and
  a key that occurs twice.\<close>

definition empty_member_doc :: string where
  \<open>empty_member_doc = ''{"a": {}}''\<close>

definition empty_member_tree :: Json where
  "empty_member_tree = projr (the (Json_ctor buffer_size_' (Some empty_member_doc)))"

definition empty_object_doc :: string where
  \<open>empty_object_doc = ''{}''\<close>

definition empty_object_tree :: Json where
  "empty_object_tree = projr (the (Json_ctor buffer_size_' (Some empty_object_doc)))"

definition trailing_comma_doc :: string where
  \<open>trailing_comma_doc = ''{"a": 1,}''\<close>

definition trailing_comma_tree :: Json where
  "trailing_comma_tree = projr (the (Json_ctor buffer_size_' (Some trailing_comma_doc)))"

definition duplicate_key_doc :: string where
  \<open>duplicate_key_doc = ''{"a": 1, "a": 2}''\<close>

definition duplicate_key_tree :: Json where
  "duplicate_key_tree = projr (the (Json_ctor buffer_size_' (Some duplicate_key_doc)))"

definition misfiled_key_doc :: string where
  \<open>misfiled_key_doc = ''{"a": {"x": ""}, "a": 2}''\<close>

definition misfiled_key_tree :: Json where
  "misfiled_key_tree = projr (the (Json_ctor buffer_size_' (Some misfiled_key_doc)))"













text \<open>
  A document with a character of no role after a closed child, and the same document
  without it.
\<close>

definition stray_doc :: string where
  \<open>stray_doc = ''{"a":{}x,"b":1}''\<close>

definition clean_doc :: string where
  \<open>clean_doc = ''{"a":{},"b":1}''\<close>

text \<open>
  An array whose one element is a number followed by more number characters, the text up
  to the end of that element, and an array whose one element is larger than any
  \<^verbatim>\<open>double\<close>.
\<close>

definition number_prefix_doc :: string where
  "number_prefix_doc = ''[1-2]''"

definition number_prefix_start :: string where
  "number_prefix_start = ''[1-2''"

definition number_prefix_tree :: Json where
  "number_prefix_tree = projr (the (Json_ctor buffer_size_' (Some number_prefix_doc)))"

definition huge_prefix :: string where
  "huge_prefix = ''[1e999''"

section \<open>Chunked reading\<close>

text \<open>
  \<open>parseBuffer\<close> over two pieces of text is \<open>parseBuffer\<close> over the first and then,
  from the state it ends in, over the second; an error in the first piece is the result.
\<close>

lemma parseBuffer_append:
  "parseBuffer (xs @ ys) s =
     (case parseBuffer xs s of Inl e \<Rightarrow> Inl e | Inr s' \<Rightarrow> parseBuffer ys s')"
  by (induction xs arbitrary: s) (auto split: sum.splits)

lemma parseFile_loop_failed:
  "failbit f \<Longrightarrow> parseFile_loop n f s = Some (Inr s)"
  by (subst parseFile_loop.simps) (simp add: readBuffer_def)

text \<open>One turn of the loop, for a stream that has not failed.\<close>

lemma parseFile_loop_step:
  assumes "\<not> failbit f"
  shows "parseFile_loop n f s =
     (case parseBuffer (take (min n (length (unread f)))
             (c_string (take n (unread f)) @ [CHR 0x00])) s of
        Inl e \<Rightarrow> Some (Inl e)
      | Inr s' \<Rightarrow>
          if Suc (length (c_string (take n (unread f)))) < min n (length (unread f))
          then Some (Inl UndefinedBehaviour)
          else parseFile_loop n
                 \<lparr>unread = drop n (unread f), failbit = (length (unread f) < n),
                  gcount = min n (length (unread f))\<rparr> s')"
proof -
  have r: "readBuffer n f =
      (True, take n (unread f),
       \<lparr>unread = drop n (unread f), failbit = (length (unread f) < n),
        gcount = min n (length (unread f))\<rparr>)"
    using assms by (simp add: readBuffer_def ifstream_read_def)
  show ?thesis
    by (subst parseFile_loop.simps)
       (simp only: r Let_def fst_conv snd_conv ifstream.simps not_True_eq_False if_False)
qed

text \<open>
  A chunk without a NUL is its own C string, and indexing up to \<^verbatim>\<open>gcount\<close> yields the
  chunk. A chunk that is indexed without going beyond the end of its C string has no NUL
  but, at most, as its last character, and again indexing yields the chunk.
\<close>

lemma c_string_plain: "CHR 0x00 \<notin> set raw \<Longrightarrow> c_string raw = raw"
  by (simp add: c_string_def takeWhile_eq_all_conv) metis


text \<open>
  For a chunk size that is not 0 and a text without NUL the loop of \<^verbatim>\<open>parseFile\<close> ends,
  and what it returns is one pass of \<open>parseBuffer\<close> over all the unread text. Induction on
  the length of the unread text: a full chunk leaves a shorter text, a short chunk sets
  \<^verbatim>\<open>failbit\<close>.
\<close>

lemma parseFile_loop_chunks:
  assumes "0 < n"
  shows "CHR 0x00 \<notin> set d \<Longrightarrow>
     parseFile_loop n \<lparr>unread = d, failbit = False, gcount = g\<rparr> s = Some (parseBuffer d s)"
proof (induction d arbitrary: g s rule: length_induct)
  case (1 d)
  have plain: "CHR 0x00 \<notin> set (take n d)" "CHR 0x00 \<notin> set (drop n d)"
    using "1.prems" by (auto dest: in_set_takeD in_set_dropD)
  have whole: "take (min n (length d)) (take n d @ [CHR 0x00]) = take n d"
    by (cases "n \<le> length d") (simp_all add: min_def)
  have within: "\<not> Suc (length (take n d)) < min n (length d)"
    by simp
  have step: "parseFile_loop n \<lparr>unread = d, failbit = False, gcount = g\<rparr> s =
      (case parseBuffer (take n d) s of
         Inl e \<Rightarrow> Some (Inl e)
       | Inr s' \<Rightarrow> parseFile_loop n
           \<lparr>unread = drop n d, failbit = (length d < n), gcount = min n (length d)\<rparr> s')"
    by (subst parseFile_loop_step)
       (simp_all only: ifstream.simps c_string_plain [OF plain(1)] whole within if_False
          simp_thms)
  show ?case
  proof (cases "length d < n")
    case True
    then show ?thesis
      unfolding step by (simp add: parseFile_loop_failed split: sum.splits)
  next
    case False
    then have shorter: "length (drop n d) < length d"
      using assms by simp
    have "parseFile_loop n \<lparr>unread = d, failbit = False, gcount = g\<rparr> s =
        (case parseBuffer (take n d) s of
           Inl e \<Rightarrow> Some (Inl e)
         | Inr s' \<Rightarrow> Some (parseBuffer (drop n d) s'))"
      unfolding step using "1.IH" shorter plain(2) False by (simp split: sum.splits)
    also have "\<dots> = Some (parseBuffer (take n d @ drop n d) s)"
      by (simp only: parseBuffer_append) (simp split: sum.splits)
    finally show ?thesis
      by simp
  qed
qed


lemma Json_ctor_parse:
  "0 < n \<Longrightarrow> CHR 0x00 \<notin> set doc \<Longrightarrow> Json_ctor n (Some doc) =
     Some (case parseBuffer doc Json_init of Inl e \<Rightarrow> Inl e | Inr s \<Rightarrow> parseFile_end s)"
  by (simp add: Json_ctor_def parseFile_def ifstream_open_def parseFile_loop_chunks
      split: sum.splits)


lemmas parse_defs =
  parseChar_def processJson_def value_end_def append_text_def open_bracket_def
  close_bracket_def isClosingBracket_def isOpeningBracket_def sameBracketType_def
  isdigit_def isNumberPart_def isBoolPart_def isValidBool_def isValidNumber_def
  strtod_def mantissa_def exponent_part_def digits_value_def digit_value_def isxdigit_def
  out_of_range_def isspace_def tolower_def map_insert_def new_JsonData_def Json_init_def
  parseFile_end_def Let_def




section \<open>Characters with no role\<close>

text \<open>
  Such a character can change what the parser does next. \<^verbatim>\<open>last_symbol_\<close> decides whether a
  comma ends a value: after a closing bracket it does not, after anything else it does. In
  \<^verbatim>\<open>{"a":{}x,"b":1}\<close> the \<^verbatim>\<open>x\<close> replaces the closing bracket in \<^verbatim>\<open>last_symbol_\<close>, so the comma
  ends an empty value in the outer object, whose key has been used already, and
  construction fails with "Missing key"; without the \<^verbatim>\<open>x\<close> the document is accepted.
\<close>

theorem stray_character_rejects_document:
  "Json_ctor buffer_size_' (Some stray_doc) = Some (Inl MissingKey)
   \<and> map_option isl (Json_ctor buffer_size_' (Some clean_doc)) = Some False"
  by (simp add: Json_ctor_parse buffer_size_'_def stray_doc_def clean_doc_def parse_defs)

text \<open>
  Claim C9, as it holds. A character that is not white space, not a colon, not a comma,
  not a bracket, and in neither the number alphabet nor the boolean alphabet goes through
  \<^verbatim>\<open>processJson\<close> without an error, and the state it leaves differs from the one it
  found in \<^verbatim>\<open>last_symbol_\<close> only. Outside quotes every character but the double quote
  (which \<^verbatim>\<open>parseBuffer\<close> handles itself) reaches \<^verbatim>\<open>processJson\<close>, so the same holds of the
  loop body of \<^verbatim>\<open>parseBuffer\<close>. The step itself never fails; a later step may, as above.
\<close>

theorem other_character_only_recorded:
  assumes "c \<noteq> CHR '' ''" "c \<noteq> CHR 0x0A" "c \<noteq> CHR 0x09" "c \<noteq> CHR 0x0D"
    and "c \<noteq> CHR '':''" "c \<noteq> CHR '',''"
    and "\<not> isOpeningBracket c" "\<not> isClosingBracket c"
    and "\<not> isNumberPart c" "\<not> isBoolPart c"
  shows "processJson c s = Inr (s\<lparr>last_symbol_' := c\<rparr>)
         \<and> (\<not> quotes_open s \<and> c \<noteq> CHR 0x22 \<longrightarrow>
              parseChar c s = Inr (s\<lparr>last_symbol_' := c\<rparr>))"
  using assms
  by (simp add: parseChar_def processJson_def value_end_def isClosingBracket_def
      isOpeningBracket_def)

theorem other_character_only_recorded_witness:
  "processJson CHR ''x'' Json_init = Inr (Json_init\<lparr>last_symbol_' := CHR ''x''\<rparr>)
   \<and> processJson CHR ''n'' Json_init = Inr (Json_init\<lparr>last_symbol_' := CHR ''n''\<rparr>)
   \<and> parseChar CHR ''x'' Json_init = Inr (Json_init\<lparr>last_symbol_' := CHR ''x''\<rparr>)"
  using other_character_only_recorded [of "CHR ''x''" Json_init]
    other_character_only_recorded [of "CHR ''n''" Json_init]
  by (simp add: isOpeningBracket_def isClosingBracket_def isNumberPart_def isBoolPart_def
      isdigit_def Json_init_def)

section \<open>Validation of bare literals\<close>

text \<open>
  The two accumulation flags are never set together: each is set only while the other is
  clear, and both are cleared together.
\<close>

lemma append_text_flags:
  "append_text s = Inr s' \<Longrightarrow>
     processing_number_' s' = processing_number_' s \<and> processing_bool_' s' = processing_bool_' s"
  by (auto simp: append_text_def Let_def split: option.splits list.splits if_splits)

lemma close_bracket_flags:
  "close_bracket c s = Inr s' \<Longrightarrow>
     processing_number_' s' = processing_number_' s \<and> processing_bool_' s' = processing_bool_' s"
  by (auto simp: close_bracket_def Let_def split: option.splits list.splits if_splits)

lemma value_end_flags:
  "value_end c s = Inr s' \<Longrightarrow> \<not> (processing_number_' s \<and> processing_bool_' s) \<Longrightarrow>
     \<not> (processing_number_' s' \<and> processing_bool_' s')"
  by (auto simp: value_end_def split: if_splits sum.splits dest!: append_text_flags)

lemma processJson_flags:
  assumes "processJson c s = Inr s'" "\<not> (processing_number_' s \<and> processing_bool_' s)"
  shows "\<not> (processing_number_' s' \<and> processing_bool_' s')"
  using assms
  by (auto simp: processJson_def Let_def open_bracket_def
      split: if_splits sum.splits dest!: value_end_flags close_bracket_flags)

lemma parseChar_flags:
  assumes "parseChar c s = Inr s'" "\<not> (processing_number_' s \<and> processing_bool_' s)"
  shows "\<not> (processing_number_' s' \<and> processing_bool_' s')"
proof (cases "c \<noteq> CHR 0x22 \<and> \<not> quotes_open s")
  case True
  then have "processJson c s = Inr s'"
    using assms(1) by (simp add: parseChar_def)
  from processJson_flags [OF this assms(2)] show ?thesis .
next
  case False
  then show ?thesis
    using assms by (auto simp: parseChar_def split: if_splits)
qed

lemma parseBuffer_flags:
  "parseBuffer doc s = Inr s' \<Longrightarrow> \<not> (processing_number_' s \<and> processing_bool_' s) \<Longrightarrow>
     \<not> (processing_number_' s' \<and> processing_bool_' s')"
proof (induction doc arbitrary: s)
  case Nil
  then show ?case by simp
next
  case (Cons c doc)
  then obtain s1 where step: "parseChar c s = Inr s1" and rest: "parseBuffer doc s1 = Inr s'"
    by (auto split: sum.splits)
  from parseChar_flags [OF step Cons.prems(2)] Cons.IH [OF rest] show ?case
    by blast
qed

lemma Json_init_flags: "\<not> (processing_number_' Json_init \<and> processing_bool_' Json_init)"
  by (simp add: Json_init_def)

lemma value_end_chars:
  assumes "c = CHR '','' \<or> c = CHR ''}'' \<or> c = CHR '']''"
  shows "c \<noteq> CHR '' ''" "c \<noteq> CHR 0x0A" "c \<noteq> CHR 0x09" "c \<noteq> CHR 0x0D" "c \<noteq> CHR '':''"
    "\<not> isNumberPart c" "\<not> isBoolPart c" "c \<noteq> CHR 0x22"
  using assms by (auto simp: isNumberPart_def isBoolPart_def isdigit_def)

lemma processJson_invalid_number:
  assumes "c = CHR '','' \<or> c = CHR ''}'' \<or> c = CHR '']''"
    and "processing_number_' s" "isValidNumber (text_' s) = Inr False"
  shows "processJson c s = Inl (InvalidNumberLiteral (text_' s))"
  using assms(2,3) value_end_chars [OF assms(1)] assms(1)
  by (simp add: processJson_def value_end_def)

lemma processJson_stod_throws:
  assumes "c = CHR '','' \<or> c = CHR ''}'' \<or> c = CHR '']''"
    and "processing_number_' s" "isValidNumber (text_' s) = Inl e"
  shows "processJson c s = Inl e"
  using assms(2,3) value_end_chars [OF assms(1)] assms(1)
  by (simp add: processJson_def value_end_def)

lemma processJson_invalid_bool:
  assumes "c = CHR '','' \<or> c = CHR ''}'' \<or> c = CHR '']''"
    and "processing_bool_' s" "\<not> isValidBool (text_' s)" "\<not> processing_number_' s"
  shows "processJson c s = Inl (InvalidBooleanLiteral (text_' s))"
  using assms(2,3,4) value_end_chars [OF assms(1)] assms(1)
  by (simp add: processJson_def value_end_def)

lemma Json_ctor_error:
  assumes "0 < n" "parseBuffer doc Json_init = Inl e" "CHR 0x00 \<notin> set (doc @ rest)"
  shows "Json_ctor n (Some (doc @ rest)) = Some (Inl e)"
  using assms by (simp add: Json_ctor_parse parseBuffer_append)

text \<open>
  \<^verbatim>\<open>std::stod\<close> converts the longest prefix of its argument that is a number and ignores
  what follows, so a text that is no number is accepted when it begins with one. In
  \<^verbatim>\<open>[1-2]\<close> the element \<^verbatim>\<open>1-2\<close> is buffered with the number flag set and is no real number;
  \<^verbatim>\<open>isValidNumber\<close> accepts it, construction succeeds, and the element is stored as the
  text \<^verbatim>\<open>1-2\<close>.
\<close>

theorem number_prefix_is_accepted:
  "processing_number_' (projr (parseBuffer number_prefix_start Json_init))
   \<and> text_' (projr (parseBuffer number_prefix_start Json_init)) = ''1-2''
   \<and> isValidNumber ''1-2'' = Inr True
   \<and> map_option isl (Json_ctor buffer_size_' (Some number_prefix_doc)) = Some False
   \<and> Json_subscript_index number_prefix_tree 0 = Inr (Some 2)
   \<and> to_string (heap number_prefix_tree) (Some 2) = Inr ''1-2''"
  unfolding number_prefix_tree_def
  by (simp add: Json_ctor_parse buffer_size_'_def number_prefix_doc_def number_prefix_start_def
      parse_defs Json_subscript_index_def subscript_index_def to_string_def)

text \<open>
  A number that is too large or too small for a \<^verbatim>\<open>double\<close> ends the step with the
  \<^verbatim>\<open>std::out_of_range\<close> of \<^verbatim>\<open>std::stod\<close>, which \<^verbatim>\<open>isValidNumber\<close> lets through; \<^verbatim>\<open>[1e999]\<close> is
  such a document.
\<close>

lemma number_out_of_range_aborts:
  assumes "\<not> quotes_open s" and "c = CHR '','' \<or> c = CHR ''}'' \<or> c = CHR '']''"
    and "processing_number_' s" "isValidNumber (text_' s) = Inl StodOutOfRange"
  shows "parseChar c s = Inl StodOutOfRange"
  using processJson_stod_throws [OF assms(2,3,4)] assms(1) value_end_chars(8) [OF assms(2)]
  by (simp add: parseChar_def)

lemma huge_number_aborts:
  "isValidNumber ''1e999'' = Inl StodOutOfRange"
  "Json_ctor buffer_size_' (Some (huge_prefix @ '']'')) = Some (Inl StodOutOfRange)"
  by (simp_all add: Json_ctor_parse buffer_size_'_def huge_prefix_def parse_defs)

text \<open>
  Claim C6, as it holds. Let the parser have read any text \<open>doc\<close> and be outside quotes, and
  let the next character end a value (a comma or a closing bracket). If the number flag is
  set and \<^verbatim>\<open>std::stod\<close> finds no number at the start of the buffered text, that character
  fails with "Invalid number", and construction from any document that goes on from there
  fails with it. If the boolean flag is set and the text is neither \<^verbatim>\<open>true\<close> nor \<^verbatim>\<open>false\<close>,
  the character fails with "Invalid boolean", and so does the construction. Scenario F:
  construction from \<^verbatim>\<open>{"a": tru}\<close> fails with "Invalid boolean: tru". The documents are
  taken without NUL characters, for which construction is one pass of \<^verbatim>\<open>parseBuffer\<close>.
\<close>

theorem literal_validated_at_end:
  assumes "parseBuffer doc Json_init = Inr s" and "\<not> quotes_open s"
    and "c = CHR '','' \<or> c = CHR ''}'' \<or> c = CHR '']''"
    and "0 < n" and "CHR 0x00 \<notin> set (doc @ c # rest)"
  shows "(processing_number_' s \<and> isValidNumber (text_' s) = Inr False \<longrightarrow>
            parseChar c s = Inl (InvalidNumberLiteral (text_' s))
            \<and> Json_ctor n (Some (doc @ c # rest)) = Some (Inl (InvalidNumberLiteral (text_' s))))
       \<and> (processing_bool_' s \<and> \<not> isValidBool (text_' s) \<longrightarrow>
            parseChar c s = Inl (InvalidBooleanLiteral (text_' s))
            \<and> Json_ctor n (Some (doc @ c # rest)) = Some (Inl (InvalidBooleanLiteral (text_' s))))
       \<and> Json_ctor buffer_size_' (Some tru_doc) = Some (Inl (InvalidBooleanLiteral ''tru''))"
proof -
  have exclusive: "\<not> (processing_number_' s \<and> processing_bool_' s)"
    using parseBuffer_flags [OF assms(1) Json_init_flags] .
  have step: "parseChar c s = processJson c s"
    using assms(2) value_end_chars(8) [OF assms(3)] by (simp add: parseChar_def)
  have abort: "Json_ctor n (Some (doc @ c # rest)) = Some (Inl e)" if "parseChar c s = Inl e" for e
  proof -
    have "parseBuffer (doc @ [c]) Json_init = Inl e"
      using assms(1) that by (simp add: parseBuffer_append)
    moreover have "CHR 0x00 \<notin> set ((doc @ [c]) @ rest)"
      using assms(5) by simp
    ultimately have "Json_ctor n (Some ((doc @ [c]) @ rest)) = Some (Inl e)"
      by (rule Json_ctor_error [OF assms(4)])
    then show ?thesis
      by simp
  qed
  have number_case: "parseChar c s = Inl (InvalidNumberLiteral (text_' s))
      \<and> Json_ctor n (Some (doc @ c # rest)) = Some (Inl (InvalidNumberLiteral (text_' s)))"
    if "processing_number_' s \<and> isValidNumber (text_' s) = Inr False"
  proof -
    have "parseChar c s = Inl (InvalidNumberLiteral (text_' s))"
      using processJson_invalid_number [OF assms(3), of s] that step by simp
    with abort show ?thesis
      by simp
  qed
  have boolean_case: "parseChar c s = Inl (InvalidBooleanLiteral (text_' s))
      \<and> Json_ctor n (Some (doc @ c # rest)) = Some (Inl (InvalidBooleanLiteral (text_' s)))"
    if "processing_bool_' s \<and> \<not> isValidBool (text_' s)"
  proof -
    have "parseChar c s = Inl (InvalidBooleanLiteral (text_' s))"
      using processJson_invalid_bool [OF assms(3), of s] that exclusive step by simp
    with abort show ?thesis
      by simp
  qed
  have scenario: "Json_ctor buffer_size_' (Some tru_doc) = Some (Inl (InvalidBooleanLiteral ''tru''))"
    by (simp add: Json_ctor_parse buffer_size_'_def tru_doc_def parse_defs)
  show ?thesis
  proof (intro conjI impI)
    assume h: "processing_number_' s \<and> isValidNumber (text_' s) = Inr False"
    from number_case [OF h] show "parseChar c s = Inl (InvalidNumberLiteral (text_' s))"
      and "Json_ctor n (Some (doc @ c # rest)) = Some (Inl (InvalidNumberLiteral (text_' s)))"
      by simp_all
  next
    assume h: "processing_bool_' s \<and> \<not> isValidBool (text_' s)"
    from boolean_case [OF h] show "parseChar c s = Inl (InvalidBooleanLiteral (text_' s))"
      and "Json_ctor n (Some (doc @ c # rest)) = Some (Inl (InvalidBooleanLiteral (text_' s)))"
      by simp_all
  next
    show "Json_ctor buffer_size_' (Some tru_doc) = Some (Inl (InvalidBooleanLiteral ''tru''))"
      by (rule scenario)
  qed
qed

theorem literal_validated_at_end_witness:
  "parseChar CHR ''}'' (projr (parseBuffer tru_prefix Json_init)) =
     Inl (InvalidBooleanLiteral ''tru'')
   \<and> Json_ctor 4096 (Some (tru_prefix @ CHR ''}'' # [])) =
       Some (Inl (InvalidBooleanLiteral ''tru''))
   \<and> parseChar CHR '','' (projr (parseBuffer minus_prefix Json_init)) =
       Inl (InvalidNumberLiteral ''-'')
   \<and> Json_ctor 4096 (Some (minus_prefix @ CHR '','' # ''2]'')) =
       Some (Inl (InvalidNumberLiteral ''-''))"
proof -
  define s where "s = projr (parseBuffer tru_prefix Json_init)"
  define t where "t = projr (parseBuffer minus_prefix Json_init)"
  have s_reached: "parseBuffer tru_prefix Json_init = Inr s"
    unfolding s_def by (simp add: tru_prefix_def parse_defs)
  have t_reached: "parseBuffer minus_prefix Json_init = Inr t"
    unfolding t_def by (simp add: minus_prefix_def parse_defs)
  have s_state: "\<not> quotes_open s" "processing_bool_' s \<and> \<not> isValidBool (text_' s)"
    "text_' s = ''tru''"
    unfolding s_def by (simp_all add: tru_prefix_def parse_defs)
  have t_state: "\<not> quotes_open t" "processing_number_' t \<and> isValidNumber (text_' t) = Inr False"
    "text_' t = ''-''"
    unfolding t_def by (simp_all add: minus_prefix_def parse_defs)
  have pos: "(0::nat) < 4096"
    by simp
  have s_plain: "CHR 0x00 \<notin> set (tru_prefix @ CHR ''}'' # [])"
    by (simp add: tru_prefix_def)
  have t_plain: "CHR 0x00 \<notin> set (minus_prefix @ CHR '','' # ''2]'')"
    by (simp add: minus_prefix_def)
  have boolean: "parseChar CHR ''}'' s = Inl (InvalidBooleanLiteral ''tru'')
      \<and> Json_ctor 4096 (Some (tru_prefix @ CHR ''}'' # [])) =
          Some (Inl (InvalidBooleanLiteral ''tru''))"
    using literal_validated_at_end [OF s_reached s_state(1) _ pos s_plain] s_state(2)
    by (simp add: s_state(3))
  have number: "parseChar CHR '','' t = Inl (InvalidNumberLiteral ''-'')
      \<and> Json_ctor 4096 (Some (minus_prefix @ CHR '','' # ''2]'')) =
          Some (Inl (InvalidNumberLiteral ''-''))"
    using literal_validated_at_end [OF t_reached t_state(1) _ pos t_plain] t_state(2)
    by (simp add: t_state(3))
  from boolean number show ?thesis
    unfolding s_def t_def by blast
qed

section \<open>Well-formedness of the store\<close>

lemma valid_handle_mono:
  "valid_handle st h \<Longrightarrow> length st \<le> length st' \<Longrightarrow> valid_handle st' h"
  by (auto simp: valid_handle_def split: option.splits)

lemma wf_node_mono:
  "wf_node st n \<Longrightarrow> length st \<le> length st' \<Longrightarrow> wf_node st' n"
  by (auto simp: wf_node_def intro: valid_handle_mono)

lemma ran_map_insert: "ran (map_insert k v m) \<subseteq> insert v (ran m)"
  by (auto simp: map_insert_def ran_def)

lemma children_object_insert:
  "children (n\<lparr>object_data_' := Some (map_insert k h
      (case object_data_' n of None \<Rightarrow> Map.empty | Some m \<Rightarrow> m))\<rparr>) \<subseteq> insert h (children n)"
  by (auto simp: children_def map_insert_def ran_def split: option.splits if_splits)

lemma children_array_append:
  "children (n\<lparr>array_data_' := Some ((case array_data_' n of None \<Rightarrow> [] | Some xs \<Rightarrow> xs) @ [h])\<rparr>)
     \<subseteq> insert h (children n)"
  by (auto simp: children_def split: option.splits)

lemma wf_node_object_insert:
  assumes "wf_node st n" "valid_handle st h"
  shows "wf_node st (n\<lparr>object_data_' := Some (map_insert k h
      (case object_data_' n of None \<Rightarrow> Map.empty | Some m \<Rightarrow> m))\<rparr>)"
  using assms children_object_insert [where n = n and k = k and h = h]
  by (auto simp: wf_node_def)

lemma wf_node_array_append:
  assumes "wf_node st n" "valid_handle st h"
  shows "wf_node st (n\<lparr>array_data_' := Some ((case array_data_' n of None \<Rightarrow> [] | Some xs \<Rightarrow> xs) @ [h])\<rparr>)"
  using assms children_array_append [where n = n and h = h]
  by (auto simp: wf_node_def)

lemma wf_node_new:
  "t \<noteq> UNINIT \<Longrightarrow> wf_node st (new_JsonData\<lparr>type_' := t, string_data_' := txt\<rparr>)"
  "t \<noteq> UNINIT \<Longrightarrow> wf_node st (new_JsonData\<lparr>type_' := t\<rparr>)"
  by (simp_all add: wf_node_def children_def new_JsonData_def)

lemma wf_store_step:
  assumes all: "\<forall>n \<in> set st. wf_node st n"
    and upd: "wf_node (st @ [new]) n'" and new: "wf_node (st @ [new]) new"
  shows "\<forall>n \<in> set (st[cur := n'] @ [new]). wf_node (st[cur := n'] @ [new]) n"
proof
  fix n assume "n \<in> set (st[cur := n'] @ [new])"
  then have "n = new \<or> n = n' \<or> n \<in> set st"
    using set_update_subset_insert [of st cur n'] by auto
  moreover have "wf_node (st @ [new]) m" if "m \<in> set st" for m
    using all that by (auto intro: wf_node_mono)
  ultimately have "wf_node (st @ [new]) n"
    using upd new by blast
  then show "wf_node (st[cur := n'] @ [new]) n"
    by (rule wf_node_mono) simp
qed

lemma wf_store_update:
  assumes all: "\<forall>n \<in> set st. wf_node st n" and upd: "wf_node st n'"
  shows "\<forall>n \<in> set (st[cur := n']). wf_node (st[cur := n']) n"
proof
  fix n assume "n \<in> set (st[cur := n'])"
  then have "n = n' \<or> n \<in> set st"
    using set_update_subset_insert [of st cur n'] by auto
  then have "wf_node st n"
    using all upd by blast
  then show "wf_node (st[cur := n']) n"
    by (rule wf_node_mono) simp
qed

lemma wf_state_append_text:
  assumes "wf_state s" "append_text s = Inr s'"
  shows "wf_state s'"
proof -
  from assms(1) obtain cur where cur: "currently_working_on_' s = Some cur" "cur < length (heap s)"
    by (auto simp: wf_state_def valid_handle_def split: option.splits)
  let ?st = "heap s" and ?new = "new_JsonData\<lparr>type_' := STRING, string_data_' := text_' s\<rparr>"
  let ?node = "heap s ! cur"
  have all: "\<forall>n \<in> set ?st. wf_node ?st n"
    using assms(1) by (simp add: wf_state_def)
  have node: "wf_node (?st @ [?new]) ?node"
  proof (rule wf_node_mono)
    show "wf_node ?st ?node"
      using all cur(2) by simp
  qed simp
  have fresh: "valid_handle (?st @ [?new]) (Some (length ?st))"
    by (simp add: valid_handle_def)
  have new: "wf_node (?st @ [?new]) ?new"
    by (simp add: wf_node_new)
  have handles: "valid_handle (?st @ [?new]) (currently_working_on_' s)"
    "\<forall>h \<in> set (working_on_' s). valid_handle (?st @ [?new]) h"
    using assms(1) by (auto simp: wf_state_def intro: valid_handle_mono)
  show ?thesis
  proof (cases "type_' ?node = OBJECT")
    case True
    with assms(2) cur obtain key ks where keys: "keys_' s = key # ks"
      and s': "s' = s\<lparr>keys_' := ks,
          heap := ?st[cur := ?node\<lparr>object_data_' := Some (map_insert key (Some (length ?st))
             (case object_data_' ?node of None \<Rightarrow> Map.empty | Some m \<Rightarrow> m))\<rparr>] @ [?new],
          text_' := []\<rparr>"
      by (auto simp: append_text_def Let_def split: list.splits)
    from wf_store_step [OF all wf_node_object_insert [OF node fresh, where k = key] new,
        where cur = cur]
    show ?thesis
      using handles unfolding s' wf_state_def
      by (auto simp: valid_handle_def split: option.splits)
  next
    case False
    with assms(2) cur have arr: "type_' ?node = ARRAY"
      and s': "s' = s\<lparr>heap := ?st[cur := ?node\<lparr>array_data_' := Some
             ((case array_data_' ?node of None \<Rightarrow> [] | Some xs \<Rightarrow> xs) @ [Some (length ?st)])\<rparr>] @ [?new],
          text_' := []\<rparr>"
      by (auto simp: append_text_def Let_def split: if_splits)
    from wf_store_step [OF all wf_node_array_append [OF node fresh] new, where cur = cur]
    show ?thesis
      using handles unfolding s' wf_state_def
      by (auto simp: valid_handle_def split: option.splits)
  qed
qed

lemma wf_state_close_bracket:
  assumes "wf_state s" "close_bracket c s = Inr s'"
  shows "wf_state s'"
proof -
  from assms(2) obtain b bs parent ws where
    stacks: "brackets_' s = b # bs" "working_on_' s = parent # ws"
    by (auto simp: close_bracket_def split: list.splits if_splits)
  from assms(1) stacks obtain cur where cur: "parent = Some cur" "cur < length (heap s)"
    by (auto simp: wf_state_def valid_handle_def split: option.splits)
  let ?st = "heap s" and ?node = "heap s ! cur" and ?temp = "currently_working_on_' s"
  have all: "\<forall>n \<in> set ?st. wf_node ?st n"
    using assms(1) by (simp add: wf_state_def)
  have node: "wf_node ?st ?node"
    using all cur(2) by simp
  have temp: "valid_handle ?st ?temp"
    using assms(1) by (simp add: wf_state_def)
  have handles: "valid_handle ?st parent" "\<forall>h \<in> set ws. valid_handle ?st h"
    using assms(1) stacks by (auto simp: wf_state_def)
  show ?thesis
  proof (cases "type_' ?node = OBJECT")
    case True
    with assms(2) stacks cur obtain key ks where keys: "keys_' s = key # ks"
      and s': "s' = s\<lparr>brackets_' := bs, last_bracket_' := c, currently_working_on_' := parent,
          working_on_' := ws, keys_' := ks,
          heap := ?st[cur := ?node\<lparr>object_data_' := Some (map_insert key ?temp
             (case object_data_' ?node of None \<Rightarrow> Map.empty | Some m \<Rightarrow> m))\<rparr>]\<rparr>"
      by (auto simp: close_bracket_def Let_def split: list.splits if_splits)
    from wf_store_update [OF all wf_node_object_insert [OF node temp, where k = key],
        where cur = cur]
    show ?thesis
      using handles unfolding s' wf_state_def
      by (auto simp: valid_handle_def split: option.splits)
  next
    case False
    with assms(2) stacks cur have arr: "type_' ?node = ARRAY"
      and s': "s' = s\<lparr>brackets_' := bs, last_bracket_' := c, currently_working_on_' := parent,
          working_on_' := ws,
          heap := ?st[cur := ?node\<lparr>array_data_' := Some
             ((case array_data_' ?node of None \<Rightarrow> [] | Some xs \<Rightarrow> xs) @ [?temp])\<rparr>]\<rparr>"
      by (auto simp: close_bracket_def Let_def split: if_splits)
    from wf_store_update [OF all wf_node_array_append [OF node temp], where cur = cur]
    show ?thesis
      using handles unfolding s' wf_state_def
      by (auto simp: valid_handle_def split: option.splits)
  qed
qed

lemma wf_state_open_bracket:
  assumes "wf_state s"
  shows "wf_state (open_bracket c s)"
proof -
  let ?st = "heap s"
  let ?new = "new_JsonData\<lparr>type_' := (if c = CHR ''{'' then OBJECT else ARRAY)\<rparr>"
  have all: "\<forall>n \<in> set ?st. wf_node ?st n"
    using assms by (simp add: wf_state_def)
  have new: "wf_node (?st @ [?new]) ?new"
    by (simp add: wf_node_new)
  have "\<forall>n \<in> set (?st @ [?new]). wf_node (?st @ [?new]) n"
  proof
    fix n assume "n \<in> set (?st @ [?new])"
    then have "n = ?new \<or> n \<in> set ?st"
      by auto
    moreover have "wf_node (?st @ [?new]) m" if "m \<in> set ?st" for m
    proof (rule wf_node_mono)
      show "wf_node ?st m" using all that by simp
    qed simp
    ultimately show "wf_node (?st @ [?new]) n"
      using new by blast
  qed
  moreover have "valid_handle (?st @ [?new]) h" if "valid_handle ?st h" for h
    using that by (rule valid_handle_mono) simp
  ultimately show ?thesis
    using assms unfolding wf_state_def open_bracket_def
    by (auto simp: valid_handle_def)
qed

lemma wf_state_same_store:
  assumes "wf_state s" "heap t = heap s" "currently_working_on_' t = currently_working_on_' s"
    "working_on_' t = working_on_' s"
  shows "wf_state t"
  using assms by (simp add: wf_state_def)

lemma wf_state_value_end:
  assumes "wf_state s" "value_end c s = Inr s'"
  shows "wf_state s'"
proof (cases "s' = s")
  case True
  with assms show ?thesis by simp
next
  case False
  with assms(2) have "append_text (s\<lparr>processing_number_' := False, processing_bool_' := False\<rparr>) = Inr s'"
    by (auto simp: value_end_def split: if_splits sum.splits)
  moreover have "wf_state (s\<lparr>processing_number_' := False, processing_bool_' := False\<rparr>)"
    by (rule wf_state_same_store [OF assms(1)]) simp_all
  ultimately show ?thesis
    by (rule wf_state_append_text [rotated])
qed

lemma wf_state_processJson:
  assumes "wf_state s" "processJson c s = Inr s'"
  shows "wf_state s'"
proof (cases "c = CHR '' '' \<or> c = CHR 0x0A \<or> c = CHR 0x09 \<or> c = CHR 0x0D")
  case True
  with assms show ?thesis
    by (simp add: processJson_def)
next
  case False
  define s1 where "s1 = (if c = CHR '':''
      then s\<lparr>processing_key_' := False, keys_' := text_' s # keys_' s, text_' := []\<rparr> else s)"
  define s2 where "s2 = (if isNumberPart c \<and> \<not> processing_bool_' s1
      then s1\<lparr>processing_number_' := True, text_' := text_' s1 @ [c]\<rparr> else s1)"
  define s3 where "s3 = (if isBoolPart c \<and> \<not> processing_number_' s2
      then s2\<lparr>processing_bool_' := True, text_' := text_' s2 @ [c]\<rparr> else s2)"
  have wf3: "wf_state s3"
    by (rule wf_state_same_store [OF assms(1)]) (simp_all add: s1_def s2_def s3_def)
  from assms(2) False obtain s4 where end4: "value_end c s3 = Inr s4"
    and rest: "(if isOpeningBracket c then Inr ((open_bracket c s4)\<lparr>last_symbol_' := c\<rparr>)
                else if isClosingBracket c then
                  (case close_bracket c s4 of Inl e \<Rightarrow> Inl e | Inr s5 \<Rightarrow> Inr (s5\<lparr>last_symbol_' := c\<rparr>))
                else Inr (s4\<lparr>last_symbol_' := c\<rparr>)) = Inr s'"
    unfolding processJson_def s1_def s2_def s3_def Let_def
    by (simp split: sum.splits)
  have wf4: "wf_state s4"
    using wf_state_value_end [OF wf3 end4] .
  show ?thesis
  proof (cases "isOpeningBracket c")
    case True
    with rest have "s' = (open_bracket c s4)\<lparr>last_symbol_' := c\<rparr>"
      by simp
    then show ?thesis
      by (intro wf_state_same_store [OF wf_state_open_bracket [OF wf4, of c]]) simp_all
  next
    case not_open: False
    show ?thesis
    proof (cases "isClosingBracket c")
      case True
      with rest not_open obtain s5 where "close_bracket c s4 = Inr s5" "s' = s5\<lparr>last_symbol_' := c\<rparr>"
        by (auto split: sum.splits)
      then show ?thesis
        by (intro wf_state_same_store [OF wf_state_close_bracket [OF wf4, of c s5]]) simp_all
    next
      case False
      with rest not_open have "s' = s4\<lparr>last_symbol_' := c\<rparr>"
        by simp
      then show ?thesis
        by (intro wf_state_same_store [OF wf4]) simp_all
    qed
  qed
qed

lemma wf_state_parseChar:
  assumes "wf_state s" "parseChar c s = Inr s'"
  shows "wf_state s'"
proof (cases "c \<noteq> CHR 0x22 \<and> \<not> quotes_open s")
  case True
  with assms(2) have "processJson c s = Inr s'"
    by (simp add: parseChar_def)
  from wf_state_processJson [OF assms(1) this] show ?thesis .
next
  case False
  with assms(2) have "heap s' = heap s" "currently_working_on_' s' = currently_working_on_' s"
    "working_on_' s' = working_on_' s"
    by (auto simp: parseChar_def split: if_splits)
  then show ?thesis
    by (rule wf_state_same_store [OF assms(1)])
qed

lemma wf_state_parseBuffer:
  "wf_state s \<Longrightarrow> parseBuffer doc s = Inr s' \<Longrightarrow> wf_state s'"
proof (induction doc arbitrary: s)
  case Nil
  then show ?case by simp
next
  case (Cons c doc)
  from Cons.prems(2) obtain s1 where step: "parseChar c s = Inr s1"
    and rest: "parseBuffer doc s1 = Inr s'"
    by (auto split: sum.splits)
  from Cons.IH [OF wf_state_parseChar [OF Cons.prems(1) step] rest] show ?case .
qed

lemma wf_state_init: "wf_state Json_init"
  by (simp add: wf_state_def Json_init_def wf_node_def children_def new_JsonData_def
      valid_handle_def)

lemma wf_state_parseFile_loop_aux:
  assumes "parseFile_loop n f s = Some y"
  shows "wf_state s \<longrightarrow> (\<forall>s'. y = Inr s' \<longrightarrow> wf_state s')"
proof (rule parseFile_loop.raw_induct
    [where P = "\<lambda>n f s y. wf_state s \<longrightarrow> (\<forall>s'. y = Inr s' \<longrightarrow> wf_state s')"])
  show "parseFile_loop n f s = Some y"
    by (rule assms)
next
  fix loop :: "nat \<Rightarrow> ifstream \<Rightarrow> Json \<Rightarrow> (error + Json) option"
  fix n f s y
  assume IH: "\<And>n f s y. loop n f s = Some y \<Longrightarrow>
      wf_state s \<longrightarrow> (\<forall>s'. y = Inr s' \<longrightarrow> wf_state s')"
  assume body: "(let r = readBuffer n f; buffer = c_string (fst (snd r)); f' = snd (snd r)
      in if \<not> fst r then Some (Inr s)
         else (case parseBuffer (take (gcount f') (buffer @ [CHR 0x00])) s of
                 Inl e \<Rightarrow> Some (Inl e)
               | Inr s' \<Rightarrow> if Suc (length buffer) < gcount f' then Some (Inl UndefinedBehaviour)
                          else loop n f' s')) = Some y"
  show "wf_state s \<longrightarrow> (\<forall>s'. y = Inr s' \<longrightarrow> wf_state s')"
  proof (intro impI allI)
    fix s'
    assume wf: "wf_state s" and y: "y = Inr s'"
    show "wf_state s'"
    proof (cases "failbit f")
      case True
      with body y wf show ?thesis
        by (simp add: readBuffer_def)
    next
      case False
      define chunk where
        "chunk = take (gcount (snd (ifstream_read n f)))
           (c_string (fst (ifstream_read n f)) @ [CHR 0x00])"
      from False body y obtain s1 where chunk: "parseBuffer chunk s = Inr s1"
        and again: "loop n (snd (ifstream_read n f)) s1 = Some y"
        unfolding chunk_def by (auto simp: readBuffer_def Let_def split: sum.splits if_splits)
      from IH [OF again] wf_state_parseBuffer [OF wf chunk] y show ?thesis
        by simp
    qed
  qed
qed

lemma wf_state_parseFile_loop:
  "parseFile_loop n f s = Some (Inr s') \<Longrightarrow> wf_state s \<Longrightarrow> wf_state s'"
  using wf_state_parseFile_loop_aux [of n f s "Inr s'"] by simp

lemma wf_state_parseFile_end:
  assumes "wf_state s" "parseFile_end s = Inr js"
  shows "wf_state js \<and> wf_node (heap js) (json_data_' js)"
proof -
  from assms(2) obtain cur root rest where cur: "currently_working_on_' s = Some cur"
    and elems: "array_data_' (heap s ! cur) = Some (Some root # rest)"
    and js: "js = s\<lparr>json_data_' := heap s ! root\<rparr>"
    by (auto simp: parseFile_end_def split: list.splits option.splits)
  from assms(1) cur have "cur < length (heap s)"
    by (simp add: wf_state_def valid_handle_def)
  with assms(1) have "wf_node (heap s) (heap s ! cur)"
    by (simp add: wf_state_def)
  with elems have "valid_handle (heap s) (Some root)"
    by (simp add: wf_node_def children_def)
  then have "root < length (heap s)"
    by (simp add: valid_handle_def)
  with assms(1) have "wf_node (heap s) (heap s ! root)"
    by (simp add: wf_state_def)
  moreover have "wf_state js"
    by (rule wf_state_same_store [OF assms(1)]) (simp_all add: js)
  ultimately show ?thesis
    by (simp add: js)
qed

lemma wf_state_Json_ctor:
  assumes "Json_ctor n file = Some (Inr js)"
  shows "wf_state js \<and> wf_node (heap js) (json_data_' js)"
proof -
  from assms obtain s where loop: "parseFile_loop n (ifstream_open file) Json_init = Some (Inr s)"
    and fin: "parseFile_end s = Inr js"
    by (auto simp: Json_ctor_def parseFile_def split: option.splits sum.splits)
  from wf_state_parseFile_end [OF wf_state_parseFile_loop [OF loop wf_state_init] fin]
  show ?thesis .
qed

lemma reachable_wf_node:
  assumes "\<forall>n \<in> set st. wf_node st n" "wf_node st root" "node \<in> reachable st root"
  shows "wf_node st node"
  using assms(3)
proof (induction rule: reachable.induct)
  case reachable_root
  from assms(2) show ?case .
next
  case (reachable_child n a)
  then have "valid_handle st (Some a)"
    by (simp add: wf_node_def)
  then have "st ! a \<in> set st"
    by (simp add: valid_handle_def)
  with assms(1) show ?case
    by simp
qed

text \<open>
  Claim C8. Whenever the constructor succeeds (for any file and any chunk size), every
  node reached from the exposed root \<^verbatim>\<open>json_data_\<close> by following handles has a type other
  than \<^verbatim>\<open>UNINIT\<close>, that is, \<^verbatim>\<open>STRING\<close>, \<^verbatim>\<open>OBJECT\<close> or \<^verbatim>\<open>ARRAY\<close>; and every handle such a
  node holds is a non-null address of the store, so following it reaches a node again.
\<close>

theorem finished_tree_has_no_uninit:
  assumes "Json_ctor n file = Some (Inr js)"
    and "node \<in> reachable (heap js) (json_data_' js)"
  shows "type_' node \<noteq> UNINIT
       \<and> type_' node \<in> {STRING, OBJECT, ARRAY}
       \<and> (\<forall>h \<in> children node. \<exists>a. h = Some a \<and> a < length (heap js))"
proof -
  from wf_state_Json_ctor [OF assms(1)]
  have "\<forall>n \<in> set (heap js). wf_node (heap js) n" "wf_node (heap js) (json_data_' js)"
    by (simp_all add: wf_state_def)
  from reachable_wf_node [OF this assms(2)] have node: "wf_node (heap js) node" .
  then have kind: "type_' node \<noteq> UNINIT"
    by (simp add: wf_node_def)
  then have kinds: "type_' node \<in> {STRING, OBJECT, ARRAY}"
    by (cases "type_' node") simp_all
  have handles: "\<exists>a. h = Some a \<and> a < length (heap js)" if "h \<in> children node" for h
    using node that by (cases h) (auto simp: wf_node_def valid_handle_def)
  from kind kinds handles show ?thesis
    by blast
qed

lemma scenario_b_built:
  "Json_ctor buffer_size_' (Some scenario_b_doc) = Some (Inr scenario_b_tree)"
  unfolding scenario_b_tree_def
  by (simp add: Json_ctor_parse buffer_size_'_def scenario_b_doc_def parse_defs)

lemma scenario_b_root:
  "type_' (json_data_' scenario_b_tree) = OBJECT"
  "\<exists>m. object_data_' (json_data_' scenario_b_tree) = Some m
       \<and> m ''a'' = Some (Some 2) \<and> m ''b'' = Some (Some 3)"
  unfolding scenario_b_tree_def
  by (simp_all add: Json_ctor_parse buffer_size_'_def scenario_b_doc_def parse_defs)

lemma scenario_b_nodes:
  "length (heap scenario_b_tree) = 5"
  "type_' (heap scenario_b_tree ! 2) = STRING" "string_data_' (heap scenario_b_tree ! 2) = ''x''"
  "type_' (heap scenario_b_tree ! 3) = OBJECT"
  "\<exists>m. object_data_' (heap scenario_b_tree ! 3) = Some m \<and> m ''c'' = Some (Some 4)"
  "type_' (heap scenario_b_tree ! 4) = STRING" "string_data_' (heap scenario_b_tree ! 4) = ''true''"
  unfolding scenario_b_tree_def
  by (simp_all add: Json_ctor_parse buffer_size_'_def scenario_b_doc_def parse_defs)

lemma children_object:
  "object_data_' n = Some m \<Longrightarrow> m k = Some h \<Longrightarrow> h \<in> children n"
  by (auto simp: children_def intro: ranI)

theorem finished_tree_has_no_uninit_witness:
  "Json_ctor buffer_size_' (Some scenario_b_doc) = Some (Inr scenario_b_tree)
   \<and> heap scenario_b_tree ! 4 \<in> reachable (heap scenario_b_tree) (json_data_' scenario_b_tree)
   \<and> string_data_' (heap scenario_b_tree ! 4) = ''true''
   \<and> type_' (heap scenario_b_tree ! 4) \<noteq> UNINIT
   \<and> type_' (heap scenario_b_tree ! 4) \<in> {STRING, OBJECT, ARRAY}
   \<and> Some 4 \<in> children (heap scenario_b_tree ! 3)
   \<and> 4 < length (heap scenario_b_tree)"
proof -
  let ?st = "heap scenario_b_tree" and ?root = "json_data_' scenario_b_tree"
  have "Some 3 \<in> children ?root"
    using scenario_b_root(2) by (auto intro: children_object)
  from reachable_child [OF reachable_root this]
  have inner: "?st ! 3 \<in> reachable ?st ?root" .
  have held: "Some 4 \<in> children (?st ! 3)"
    using scenario_b_nodes(5) by (auto intro: children_object)
  from reachable_child [OF inner this]
  have leaf: "?st ! 4 \<in> reachable ?st ?root" .
  from finished_tree_has_no_uninit [OF scenario_b_built inner] held
  have "\<exists>a. Some 4 = Some a \<and> a < length ?st"
    by blast
  then have valid: "4 < length ?st"
    by simp
  from finished_tree_has_no_uninit [OF scenario_b_built leaf]
    scenario_b_built leaf scenario_b_nodes(7) held valid
  show ?thesis
    by blast
qed

section \<open>Deleting from an array\<close>

text \<open>
  Claim C4. Let a handle point to a node of type \<^verbatim>\<open>ARRAY\<close> whose vector \<open>xs\<close> has \<open>n\<close>
  elements, and let \<open>i\<close> (a C++ \<^verbatim>\<open>int\<close>) be an index with \<open>0 \<le> i < n\<close>. Then \<^verbatim>\<open>del(i)\<close>
  succeeds; the node is still an \<^verbatim>\<open>ARRAY\<close>, its vector has \<open>n - 1\<close> elements, the elements
  before \<open>i\<close> stay where they were, every element that was at an index \<open>j > i\<close> is at
  \<open>j - 1\<close>, and for \<open>n = 1\<close> the vector is empty. No other node of the store changes.
\<close>

theorem del_index_shifts_down:
  assumes "a < length st" and "type_' (st ! a) = ARRAY" and "array_data_' (st ! a) = Some xs"
    and "0 \<le> sint i" and "nat (sint i) < length xs"
  shows "\<exists>st' ys. del_index st (Some a) i = Inr st'
           \<and> type_' (st' ! a) = ARRAY
           \<and> array_data_' (st' ! a) = Some ys
           \<and> length ys = length xs - 1
           \<and> (\<forall>j. j < nat (sint i) \<longrightarrow> ys ! j = xs ! j)
           \<and> (\<forall>j. nat (sint i) < j \<and> j < length xs \<longrightarrow> ys ! (j - 1) = xs ! j)
           \<and> (length xs = 1 \<longrightarrow> ys = [])
           \<and> length st' = length st
           \<and> (\<forall>b. b \<noteq> a \<longrightarrow> st' ! b = st ! b)"
proof -
  define k where "k = nat (sint i)"
  define ys where "ys = take k xs @ drop (Suc k) xs"
  define st' where "st' = st[a := (st ! a)\<lparr>array_data_' := Some ys\<rparr>]"
  have k: "k < length xs"
    using assms(5) by (simp add: k_def)
  have in_range: "\<not> (sint i < 0 \<or> int (length xs) \<le> sint i)"
    using assms(4,5) by linarith
  have sole: "ys = []" if "length xs = 1"
    using that k by (simp add: ys_def)
  have result: "del_index st (Some a) i = Inr st'"
    using assms(2,3) in_range sole
    by (auto simp: del_index_def st'_def ys_def k_def)
  have len: "length ys = length xs - 1"
    using k by (simp add: ys_def)
  have before: "ys ! j = xs ! j" if "j < k" for j
    using that k by (simp add: ys_def nth_append)
  have after: "ys ! (j - 1) = xs ! j" if "k < j" "j < length xs" for j
  proof -
    define pre where "pre = take k xs"
    have pre: "length pre = k" "ys = pre @ drop (Suc k) xs"
      using k by (simp_all add: pre_def ys_def)
    have not_before: "\<not> j - 1 < k"
      using that by arith
    have "ys ! (j - 1) = drop (Suc k) xs ! (j - 1 - k)"
      using not_before by (simp only: pre nth_append if_False)
    also have "\<dots> = xs ! (Suc k + (j - 1 - k))"
      using that by simp
    also have "Suc k + (j - 1 - k) = j"
      using that by simp
    finally show ?thesis .
  qed
  have node: "type_' (st' ! a) = ARRAY" "array_data_' (st' ! a) = Some ys"
    using assms(1,2) by (simp_all add: st'_def)
  have size: "length st' = length st"
    by (simp add: st'_def)
  have frame: "st' ! b = st ! b" if "b \<noteq> a" for b
    using that by (simp add: st'_def)
  from result node len before after sole size frame
  have "del_index st (Some a) i = Inr st'
      \<and> type_' (st' ! a) = ARRAY
      \<and> array_data_' (st' ! a) = Some ys
      \<and> length ys = length xs - 1
      \<and> (\<forall>j. j < k \<longrightarrow> ys ! j = xs ! j)
      \<and> (\<forall>j. k < j \<and> j < length xs \<longrightarrow> ys ! (j - 1) = xs ! j)
      \<and> (length xs = 1 \<longrightarrow> ys = [])
      \<and> length st' = length st
      \<and> (\<forall>b. b \<noteq> a \<longrightarrow> st' ! b = st ! b)"
    by blast
  then show ?thesis
    unfolding k_def by (intro exI [of _ st'] exI [of _ ys])
qed

lemma scenario_a_nodes:
  "length (heap scenario_a_tree) = 5"
  "type_' (heap scenario_a_tree ! 1) = ARRAY"
  "array_data_' (heap scenario_a_tree ! 1) = Some [Some 2, Some 3, Some 4]"
  "string_data_' (heap scenario_a_tree ! 3) = ''2''"
  unfolding scenario_a_tree_def
  by (simp_all add: Json_ctor_parse buffer_size_'_def scenario_a_doc_def parse_defs)

lemma sole_element_nodes:
  "length (heap sole_element_tree) = 3"
  "type_' (heap sole_element_tree ! 1) = ARRAY"
  "array_data_' (heap sole_element_tree ! 1) = Some [Some 2]"
  unfolding sole_element_tree_def
  by (simp_all add: Json_ctor_parse buffer_size_'_def sole_element_doc_def parse_defs)

theorem del_index_shifts_down_witness:
  "(\<exists>st' ys. del_index (heap scenario_a_tree) (Some 1) 1 = Inr st'
       \<and> array_data_' (st' ! 1) = Some ys \<and> length ys = 2
       \<and> ys ! 0 = Some 2 \<and> ys ! 1 = Some 4)
   \<and> (\<exists>st'. del_index (heap sole_element_tree) (Some 1) 0 = Inr st'
       \<and> array_data_' (st' ! 1) = Some [])"
proof -
  have one: "(0::int) \<le> sint (1::32 word)" "nat (sint (1::32 word)) = 1"
    by simp_all
  have zero: "(0::int) \<le> sint (0::32 word)" "nat (sint (0::32 word)) = 0"
    by simp_all
  have in_three: "nat (sint (1::32 word)) < length [Some (2::nat), Some 3, Some 4]"
    by (simp add: one(2))
  have in_one: "nat (sint (0::32 word)) < length [Some (2::nat)]"
    by (simp add: zero(2))
  have addr: "1 < length (heap scenario_a_tree)" "1 < length (heap sole_element_tree)"
    by (simp_all add: scenario_a_nodes(1) sole_element_nodes(1))
  note three = del_index_shifts_down
    [OF addr(1) scenario_a_nodes(2) scenario_a_nodes(3) one(1) in_three, unfolded one(2)]
  note sole = del_index_shifts_down
    [OF addr(2) sole_element_nodes(2) sole_element_nodes(3) zero(1) in_one, unfolded zero(2)]
  from three obtain st' ys where del3: "del_index (heap scenario_a_tree) (Some 1) 1 = Inr st'"
    and arr3: "array_data_' (st' ! 1) = Some ys"
    and len3: "length ys = length [Some (2::nat), Some 3, Some 4] - 1"
    and before3: "\<forall>j. j < 1 \<longrightarrow> ys ! j = [Some 2, Some 3, Some 4] ! j"
    and after3: "\<forall>j. 1 < j \<and> j < length [Some (2::nat), Some 3, Some 4] \<longrightarrow>
        ys ! (j - 1) = [Some 2, Some 3, Some 4] ! j"
    by (elim exE conjE)
  from before3 have first: "ys ! 0 = Some 2"
    by simp
  from after3 [rule_format, of 2] have second: "ys ! 1 = Some 4"
    by simp
  from len3 have len: "length ys = 2"
    by simp
  from sole obtain st2 ys2 where del1: "del_index (heap sole_element_tree) (Some 1) 0 = Inr st2"
    and arr1: "array_data_' (st2 ! 1) = Some ys2"
    and empty1: "length [Some (2::nat)] = 1 \<longrightarrow> ys2 = []"
    by (elim exE conjE)
  from empty1 have "ys2 = []"
    by simp
  with del1 arr1 have part2: "\<exists>st'. del_index (heap sole_element_tree) (Some 1) 0 = Inr st'
       \<and> array_data_' (st' ! 1) = Some []"
    by blast
  from del3 arr3 len first second
  have part1: "\<exists>st' ys. del_index (heap scenario_a_tree) (Some 1) 1 = Inr st'
       \<and> array_data_' (st' ! 1) = Some ys \<and> length ys = 2
       \<and> ys ! 0 = Some 2 \<and> ys ! 1 = Some 4"
    by blast
  from part1 part2 show ?thesis
    by (rule conjI)
qed

section \<open>Handles\<close>

text \<open>
  Claim C7. \<^verbatim>\<open>operator==\<close> holds of two handles exactly when their \<^verbatim>\<open>ptr_\<close> are the same
  address (or both null). The accessors are \<^verbatim>\<open>const\<close>: they return a handle and leave the
  store as it is, so a second access with the same key or index reads the same store and
  returns a handle equal to the first, which converts to the same text. Equality is not
  equality of contents: the two elements of \<^verbatim>\<open>[1, 1]\<close> are equal nodes behind unequal
  handles.
\<close>

theorem handle_equality_is_identity:
  "(handle_eq h1 h2 \<longleftrightarrow> h1 = h2)
   \<and> (subscript_key st h key = Inr c1 \<and> subscript_key st h key = Inr c2 \<longrightarrow>
        handle_eq c1 c2 \<and> to_string st c1 = to_string st c2)
   \<and> (subscript_index st h i = Inr c1 \<and> subscript_index st h i = Inr c2 \<longrightarrow>
        handle_eq c1 c2 \<and> to_string st c1 = to_string st c2)
   \<and> (Json_subscript_key js key = Inr c1 \<and> Json_subscript_key js key = Inr c2 \<longrightarrow>
        handle_eq c1 c2 \<and> to_string (heap js) c1 = to_string (heap js) c2)
   \<and> (Json_subscript_index js i = Inr c1 \<and> Json_subscript_index js i = Inr c2 \<longrightarrow>
        handle_eq c1 c2 \<and> to_string (heap js) c1 = to_string (heap js) c2)"
  by (auto simp: handle_eq_def)

lemma twin_nodes:
  "Json_subscript_index twin_tree 0 = Inr (Some 2)"
  "Json_subscript_index twin_tree 1 = Inr (Some 3)"
  "to_string (heap twin_tree) (Some 2) = Inr ''1''"
  "to_string (heap twin_tree) (Some 3) = Inr ''1''"
  "heap twin_tree ! 2 = heap twin_tree ! 3"
  unfolding twin_tree_def
  by (simp_all add: Json_ctor_parse buffer_size_'_def twin_doc_def parse_defs
      Json_subscript_index_def to_string_def)

theorem handle_equality_is_identity_witness:
  "Json_subscript_index twin_tree 0 = Inr (Some 2)
   \<and> handle_eq (Some 2) (Some 2)
   \<and> to_string (heap twin_tree) (Some 2) = Inr ''1''
   \<and> Json_subscript_index twin_tree 1 = Inr (Some 3)
   \<and> to_string (heap twin_tree) (Some 3) = Inr ''1''
   \<and> heap twin_tree ! 2 = heap twin_tree ! 3
   \<and> \<not> handle_eq (Some 2) (Some 3)"
proof -
  note same = handle_equality_is_identity
    [of "Some 2" "Some 2" "heap twin_tree" None "[]" "Some 2" "Some 2" 0 twin_tree]
  note other = handle_equality_is_identity
    [of "Some 2" "Some 3" "heap twin_tree" None "[]" "Some 2" "Some 2" 0 twin_tree]
  from same twin_nodes(1) have "handle_eq (Some 2) (Some 2)"
    by blast
  moreover from other have "\<not> handle_eq (Some 2) (Some 3)"
    by simp
  ultimately show ?thesis
    using twin_nodes by blast
qed

section \<open>Key access on an object without children\<close>

text \<open>
  With the container allocated, an absent key is "Key not found", for access and for
  deletion. With the container still null, both go through the null pointer.
\<close>

lemma subscript_key_absent:
  assumes "type_' (st ! a) = OBJECT" "object_data_' (st ! a) = Some m" "m key = None"
  shows "subscript_key st (Some a) key = Inl (KeyNotFound key)"
    and "del_key st (Some a) key = Inl (KeyNotFound key)"
  using assms by (simp_all add: subscript_key_def del_key_def)

lemma subscript_key_unallocated:
  assumes "type_' (st ! a) = OBJECT" "object_data_' (st ! a) = None"
  shows "subscript_key st (Some a) key = Inl UndefinedBehaviour"
    and "del_key st (Some a) key = Inl UndefinedBehaviour"
  using assms by (simp_all add: subscript_key_def del_key_def)

text \<open>
  Claim C2, at the inputs where the source departs from it. In the tree of
  \<^verbatim>\<open>{"a": {}}\<close> the handle \<^verbatim>\<open>root["a"]\<close> points to a node of type \<^verbatim>\<open>OBJECT\<close> whose
  \<^verbatim>\<open>object_data_\<close> was never allocated; \<^verbatim>\<open>h["x"]\<close> and \<^verbatim>\<open>h.del("x")\<close> on it call \<^verbatim>\<open>find\<close>
  through the null pointer instead of failing with "Key not found". For the root \<^verbatim>\<open>{}\<close>,
  \<^verbatim>\<open>Json::operator[]\<close> tests the container and fails with "Can't access key on non-object".
\<close>

theorem key_access_on_empty_object:
  "Json_ctor buffer_size_' (Some empty_member_doc) = Some (Inr empty_member_tree)
   \<and> Json_subscript_key empty_member_tree ''a'' = Inr (Some 2)
   \<and> type_' (heap empty_member_tree ! 2) = OBJECT
   \<and> object_data_' (heap empty_member_tree ! 2) = None
   \<and> subscript_key (heap empty_member_tree) (Some 2) ''x'' = Inl UndefinedBehaviour
   \<and> del_key (heap empty_member_tree) (Some 2) ''x'' = Inl UndefinedBehaviour
   \<and> Json_ctor buffer_size_' (Some empty_object_doc) = Some (Inr empty_object_tree)
   \<and> type_' (json_data_' empty_object_tree) = OBJECT
   \<and> Json_subscript_key empty_object_tree ''x'' = Inl NotAnObject"
  unfolding empty_member_tree_def empty_object_tree_def
  by (simp add: Json_ctor_parse buffer_size_'_def empty_member_doc_def empty_object_doc_def
      parse_defs Json_subscript_key_def subscript_key_def del_key_def)

section \<open>A trailing comma\<close>

text \<open>
  Scenario D of the specification does not fail: construction from \<^verbatim>\<open>{"a": 1,}\<close> returns
  a tree.
\<close>

theorem trailing_comma_is_accepted:
  "map_option isl (Json_ctor buffer_size_' (Some trailing_comma_doc)) = Some False"
  by (simp add: Json_ctor_parse buffer_size_'_def trailing_comma_doc_def parse_defs)

text \<open>
  Claim C1, as the source has it. Construction from \<^verbatim>\<open>{"a": 1,}\<close> succeeds: the comma ends
  the value \<^verbatim>\<open>1\<close>, the closing brace then finds the token buffer empty and both flags
  clear, so nothing more is appended and the object is closed. The root is an \<^verbatim>\<open>OBJECT\<close>
  whose only key is \<^verbatim>\<open>a\<close>, with text \<^verbatim>\<open>1\<close>; no node is made for the place after the comma.
\<close>

theorem trailing_comma_tree_built:
  "Json_ctor buffer_size_' (Some trailing_comma_doc) = Some (Inr trailing_comma_tree)
   \<and> type_' (json_data_' trailing_comma_tree) = OBJECT
   \<and> map_option dom (object_data_' (json_data_' trailing_comma_tree)) = Some {''a''}
   \<and> Json_subscript_key trailing_comma_tree ''a'' = Inr (Some 2)
   \<and> to_string (heap trailing_comma_tree) (Some 2) = Inr ''1''
   \<and> length (heap trailing_comma_tree) = 3"
  unfolding trailing_comma_tree_def
  by (simp add: Json_ctor_parse buffer_size_'_def trailing_comma_doc_def
      parse_defs Json_subscript_key_def to_string_def)

section \<open>A key that occurs twice\<close>

text \<open>
  \<^verbatim>\<open>insert\<close> keeps the value a key already has, so of two values appended to one object
  under the same key the first stays: in \<^verbatim>\<open>{"a": 1, "a": 2}\<close> the key has the text \<^verbatim>\<open>1\<close>.
\<close>

lemma map_insert_present:
  "m k = Some v \<Longrightarrow> map_insert k w m = m"
  by (simp add: map_insert_def)

lemma duplicate_key_first_wins:
  "Json_ctor buffer_size_' (Some duplicate_key_doc) = Some (Inr duplicate_key_tree)
   \<and> Json_subscript_key duplicate_key_tree ''a'' = Inr (Some 2)
   \<and> to_string (heap duplicate_key_tree) (Some 2) = Inr ''1''"
  unfolding duplicate_key_tree_def
  by (simp add: Json_ctor_parse buffer_size_'_def duplicate_key_doc_def
      parse_defs Json_subscript_key_def to_string_def)

text \<open>
  Claim C10, at an input where the source departs from it. In
  \<^verbatim>\<open>{"a": {"x": ""}, "a": 2}\<close> the empty string before the closing brace is never appended
  (the brace ends a value only when the token buffer is not empty), so its key \<^verbatim>\<open>x\<close> stays
  on \<^verbatim>\<open>keys_\<close>; the inner object is then inserted into the root under \<^verbatim>\<open>x\<close>, not under
  \<^verbatim>\<open>a\<close>, and the root maps \<^verbatim>\<open>a\<close> to the text \<^verbatim>\<open>2\<close> of the second occurrence.
\<close>

theorem duplicate_key_misfiled:
  "Json_ctor buffer_size_' (Some misfiled_key_doc) = Some (Inr misfiled_key_tree)
   \<and> Json_subscript_key misfiled_key_tree ''a'' = Inr (Some 3)
   \<and> to_string (heap misfiled_key_tree) (Some 3) = Inr ''2''
   \<and> Json_subscript_key misfiled_key_tree ''x'' = Inr (Some 2)
   \<and> type_' (heap misfiled_key_tree ! 2) = OBJECT
   \<and> object_data_' (heap misfiled_key_tree ! 2) = None"
  unfolding misfiled_key_tree_def
  by (simp add: Json_ctor_parse buffer_size_'_def misfiled_key_doc_def
      parse_defs Json_subscript_key_def to_string_def)

section \<open>Scalars are stored as written\<close>







































end
